theory Spec2Isabelle
  imports Complex_Main "HOL-Library.AList"
begin

section \<open>Password hashing\<close>

text \<open>
  \<^verbatim>\<open>hash_password\<close> calls the MD5 implementation of the \<^verbatim>\<open>adafruit_hashlib\<close> library, which is
  not part of the program. The composition \<^verbatim>\<open>md5(p.encode('utf-8')).hexdigest()\<close> is therefore a
  parameter \<open>md5_hex\<close> of the model; the loop that follows it is the program's own and is
  translated statement by statement.
\<close>

text \<open>\<^verbatim>\<open>range(0, n, 2)\<close>: the even numbers below \<open>n\<close>, ascending.\<close>

definition range_step2 :: "nat \<Rightarrow> nat list" where
  "range_step2 n = map (\<lambda>k. 2 * k) [0..<(n + 1) div 2]"

text \<open>
  The body of the \<^verbatim>\<open>for\<close> loop: when the character at offset \<open>i\<close> is \<^verbatim>\<open>'0'\<close>, the string is rebuilt as
  \<^verbatim>\<open>s[0:i] + 'c' + s[i + 1:]\<close>. The offsets handed to the loop are computed once from the length
  of the raw digest.
\<close>

fun replace_zeros :: "nat list \<Rightarrow> string \<Rightarrow> string" where
  "replace_zeros [] s = s"
| "replace_zeros (i # js) s =
     replace_zeros js (if s ! i = CHR ''0'' then take i s @ ''c'' @ drop (i + 1) s else s)"

definition hash_password :: "(string \<Rightarrow> string) \<Rightarrow> string \<Rightarrow> string" where
  "hash_password md5_hex password =
     (let password_md5 = md5_hex password
      in replace_zeros (range_step2 (length password_md5)) password_md5)"

text \<open>
  The transformation in the words of the specification: every \<^verbatim>\<open>'0'\<close> at an even offset becomes
  \<^verbatim>\<open>'c'\<close>, every other position is kept.
\<close>

definition even_zero_to_c :: "string \<Rightarrow> string" where
  "even_zero_to_c s =
     map (\<lambda>(i, ch). if even i \<and> ch = CHR ''0'' then CHR ''c'' else ch) (enumerate 0 s)"

section \<open>Python values, exceptions and the runtime\<close>

text \<open>
  Exceptions carry their class and the text of their argument, since the retry code
  dispatches on the class and on \<^verbatim>\<open>str(error)\<close>. For the classes the retry code catches the
  two texts are the same; for a \<^verbatim>\<open>KeyError\<close> the text kept is the key. A subclass raised by a
  library is recorded under the class that the program's \<^verbatim>\<open>except\<close> clauses can name.
\<close>

datatype exn_class =
    RuntimeError | ValueError | OutOfRetries | WiFiNotConnected
  | NotLoggedIn | SerialLoginErrors
  | KeyError | IndexError | TypeError | OverflowError | AttributeError | OtherException

datatype exn = Exn (cls_of: exn_class) (message: string)

text \<open>
  A Python \<^verbatim>\<open>float\<close>: a finite float is the rational it stands for, whatever the width of
  the interpreter's floats.
\<close>

datatype pyfloat = Finite rat | PosInf | NegInf | NaN

text \<open>
  The values \<^verbatim>\<open>json.loads\<close> produces (the decoder itself is trusted), which are also the values
  held by \<^verbatim>\<open>plant_id\<close>, \<^verbatim>\<open>cookies\<close> and the header dictionary. A number is what the decoder
  made of it: an \<^verbatim>\<open>int\<close> of any size, or a \<^verbatim>\<open>float\<close>.
\<close>

datatype pyval =
    PNone | PBool bool | PInt int | PFloat pyfloat | PStr string
  | PList "pyval list" | PDict "(string \<times> pyval) list"

fun bind_exn :: "exn + 'a \<Rightarrow> ('a \<Rightarrow> exn + 'b) \<Rightarrow> exn + 'b" where
  "bind_exn (Inl e) f = Inl e"
| "bind_exn (Inr v) f = f v"

text \<open>\<^verbatim>\<open>v[k]\<close> for a string key: only a dictionary answers, and a missing key is a \<^verbatim>\<open>KeyError\<close>.\<close>

fun getitem_key :: "pyval \<Rightarrow> string \<Rightarrow> exn + pyval" where
  "getitem_key (PDict kvs) k =
     (case map_of kvs k of Some v \<Rightarrow> Inr v | None \<Rightarrow> Inl (Exn KeyError k))"
| "getitem_key (PList xs) k = Inl (Exn TypeError ''list indices must be integers'')"
| "getitem_key (PStr s) k = Inl (Exn TypeError ''string indices must be integers'')"
| "getitem_key v k = Inl (Exn TypeError ''object is not subscriptable'')"

text \<open>\<^verbatim>\<open>v[0]\<close>: the first element of a list or string; a decoded JSON object has no key \<^verbatim>\<open>0\<close>.\<close>

fun getitem_0 :: "pyval \<Rightarrow> exn + pyval" where
  "getitem_0 (PList []) = Inl (Exn IndexError ''list index out of range'')"
| "getitem_0 (PList (x # xs)) = Inr x"
| "getitem_0 (PStr []) = Inl (Exn IndexError ''string index out of range'')"
| "getitem_0 (PStr (c # cs)) = Inr (PStr [c])"
| "getitem_0 (PDict kvs) = Inl (Exn KeyError ''0'')"
| "getitem_0 v = Inl (Exn TypeError ''object is not subscriptable'')"

text \<open>Truth value testing, as in \<^verbatim>\<open>if data['success']:\<close>.\<close>

fun truthy :: "pyval \<Rightarrow> bool" where
  "truthy PNone = False"
| "truthy (PBool b) = b"
| "truthy (PInt n) = (n \<noteq> 0)"
| "truthy (PFloat f) = (f \<noteq> Finite 0)"
| "truthy (PStr s) = (s \<noteq> [])"
| "truthy (PList xs) = (xs \<noteq> [])"
| "truthy (PDict kvs) = (kvs \<noteq> [])"

text \<open>\<^verbatim>\<open>d.update({...})\<close>; a dictionary assignment replaces an existing key and adds a new one.\<close>

fun dict_update :: "pyval \<Rightarrow> (string \<times> pyval) list \<Rightarrow> exn + pyval" where
  "dict_update (PDict kvs) new = Inr (PDict (foldl (\<lambda>d (k, v). AList.update k v d) kvs new))"
| "dict_update v new = Inl (Exn AttributeError ''object has no attribute update'')"

text \<open>
  The interpreter's built-ins that depend on floating point or on \<^verbatim>\<open>repr\<close> are parameters:
  \<open>rt_md5\<close> is \<^verbatim>\<open>md5(p.encode('utf-8')).hexdigest()\<close>; \<open>rt_float\<close> reads a string as a float
  (\<open>None\<close> when \<^verbatim>\<open>float\<close> rejects the text); \<open>rt_float_int\<close> converts an \<^verbatim>\<open>int\<close> to the float the
  interpreter rounds it to (\<open>None\<close> when the integer is beyond the range of its floats and
  \<^verbatim>\<open>float\<close> raises \<^verbatim>\<open>OverflowError\<close>); \<open>rt_repr\<close> prints the values whose \<^verbatim>\<open>str()\<close> is not fixed
  below.
\<close>

record runtime =
  rt_md5 :: "string \<Rightarrow> string"
  rt_float :: "string \<Rightarrow> pyfloat option"
  rt_float_int :: "int \<Rightarrow> pyfloat option"
  rt_repr :: "pyval \<Rightarrow> string"

definition py_str :: "runtime \<Rightarrow> pyval \<Rightarrow> string" where
  "py_str rt v =
     (case v of
        PStr s \<Rightarrow> s
      | PNone \<Rightarrow> ''None''
      | PBool b \<Rightarrow> (if b then ''True'' else ''False'')
      | _ \<Rightarrow> rt_repr rt v)"

text \<open>
  \<^verbatim>\<open>float(v)\<close>: a string goes through the runtime's reader and raises \<^verbatim>\<open>ValueError\<close> when it is not
  a number; an \<^verbatim>\<open>int\<close> is rounded by the runtime or raises \<^verbatim>\<open>OverflowError\<close>; a \<^verbatim>\<open>float\<close> is
  returned as it is; \<^verbatim>\<open>True\<close> and \<^verbatim>\<open>False\<close> are the integers 1 and 0; \<^verbatim>\<open>None\<close>, lists and
  dictionaries raise \<^verbatim>\<open>TypeError\<close>.
\<close>

definition py_float :: "runtime \<Rightarrow> pyval \<Rightarrow> exn + pyfloat" where
  "py_float rt v =
     (case v of
        PStr s \<Rightarrow>
          (case rt_float rt s of
             Some f \<Rightarrow> Inr f
           | None \<Rightarrow> Inl (Exn ValueError ''could not convert string to float''))
      | PInt n \<Rightarrow>
          (case rt_float_int rt n of
             Some f \<Rightarrow> Inr f
           | None \<Rightarrow> Inl (Exn OverflowError ''int too large to convert to float''))
      | PFloat f \<Rightarrow> Inr f
      | PBool b \<Rightarrow> Inr (Finite (if b then 1 else 0))
      | _ \<Rightarrow> Inl (Exn TypeError ''float() argument must be a string or a number''))"

text \<open>\<^verbatim>\<open>int(f)\<close> on a float drops the fractional part, towards zero.\<close>

definition trunc :: "rat \<Rightarrow> int" where
  "trunc r = (if 0 \<le> r then \<lfloor>r\<rfloor> else \<lceil>r\<rceil>)"

definition py_int :: "pyfloat \<Rightarrow> exn + int" where
  "py_int f =
     (case f of
        Finite r \<Rightarrow> Inr (trunc r)
      | NaN \<Rightarrow> Inl (Exn ValueError ''cannot convert float NaN to integer'')
      | _ \<Rightarrow> Inl (Exn OverflowError ''cannot convert float infinity to integer''))"

section \<open>The world outside the program\<close>

text \<open>
  What the program does to its surroundings is recorded as a list of events, in order.
  \<open>LoginAttempt\<close> and \<open>PollAttempt\<close> stand for the progress message printed at the top of each
  loop iteration. \<^verbatim>\<open>wifi.connect()\<close> and \<^verbatim>\<open>wifi.reset()\<close> are calls into the Wi-Fi controller,
  recorded as events and taken to return; \<^verbatim>\<open>print\<close>, \<^verbatim>\<open>gc.collect\<close>, the status pixel and
  \<^verbatim>\<open>response.close()\<close> are taken not to raise.
\<close>

datatype event =
    LoginAttempt nat
  | PollAttempt nat
  | HttpPost string "(string \<times> pyval) list" "(string \<times> string) list"
  | HttpGet string "(string \<times> pyval) list"
  | Sleep nat
  | WifiConnect
  | WifiReset
  | ShowPlaceholder
  | UpdateDisplay "int option"
  | Exit int

text \<open>
  What the surroundings answer during one pass of a retry loop: whether the link is up
  (\<^verbatim>\<open>wifi.esp.is_connected\<close>) and what the HTTP request returns or raises. Of a response the
  program reads the status code, the body through \<^verbatim>\<open>json.loads(response.content.decode('utf-8'))\<close>
  (which may raise), and the headers.
\<close>

record response =
  status_code :: int
  content_json :: "exn + pyval"
  resp_headers :: "(string \<times> string) list"

record attempt_env =
  is_connected :: bool
  http_result :: "exn + response"

section \<open>The Growatt API client\<close>

text \<open>
  The attributes of the \<^verbatim>\<open>GrowattApi\<close> object. The attribute \<^verbatim>\<open>power\<close> is named \<open>power_reading\<close>
  here, \<open>power\<close> being the exponentiation of the library.
\<close>

record api_state =
  plant_id :: pyval
  cookies :: pyval
  power_reading :: "int option"
  headers :: "(string \<times> pyval) list"

definition GrowattApi :: api_state where
  "GrowattApi =
     \<lparr>plant_id = PNone, cookies = PNone, power_reading = None,
      headers =
        [(''User-Agent'', PStr ''Adafruit CircuitPython''),
         (''Accept-Encoding'', PStr ''gzip, deflate''),
         (''Accept'', PStr ''*/*''),
         (''Connection'', PStr ''keep-alive''),
         (''Content-Type'', PStr ''application/x-www-form-urlencoded'')]\<rparr>"

definition server_url :: string where
  "server_url = ''https://server-api.growatt.com/''"

definition get_url :: "string \<Rightarrow> string" where
  "get_url page = server_url @ page"

text \<open>The exception classes named by the \<^verbatim>\<open>except\<close> clause of both retry loops.\<close>

definition caught :: "exn \<Rightarrow> bool" where
  "caught e = (cls_of e \<in> {RuntimeError, ValueError, OutOfRetries, WiFiNotConnected})"

text \<open>
  The tail of both \<^verbatim>\<open>except\<close> blocks, reached while attempts remain: the text of the error
  selects between \<^verbatim>\<open>time.sleep(20)\<close>, \<^verbatim>\<open>wifi.reset()\<close> and \<^verbatim>\<open>wifi.connect()\<close>.
\<close>

definition retry_action :: "exn \<Rightarrow> event list" where
  "retry_action error =
     (if message error \<noteq> ''WiFi not connected'' then
        (if message error \<noteq> ''Error response to command'' then [Sleep 20] else [WifiReset])
      else [WifiConnect])"

subsection \<open>login\<close>

text \<open>
  The body of the \<^verbatim>\<open>try\<close> block after the POST has returned: \<^verbatim>\<open>['back']\<close>, the test of
  \<^verbatim>\<open>data['success']\<close> with the \<^verbatim>\<open>update\<close> of the user fields, or \<^verbatim>\<open>raise NotLoggedIn\<close>.
\<close>

definition login_data :: "response \<Rightarrow> exn + pyval" where
  "login_data response =
     bind_exn (content_json response) (\<lambda>decoded.
     bind_exn (getitem_key decoded ''back'') (\<lambda>data.
     bind_exn (getitem_key data ''success'') (\<lambda>success.
       if truthy success then
         bind_exn (getitem_key data ''user'') (\<lambda>user1.
         bind_exn (getitem_key user1 ''id'') (\<lambda>user_id.
         bind_exn (getitem_key data ''user'') (\<lambda>user2.
         bind_exn (getitem_key user2 ''rightlevel'') (\<lambda>level.
           dict_update data [(''userId'', user_id), (''userLevel'', level)]))))
       else Inl (Exn NotLoggedIn []))))"

text \<open>\<^verbatim>\<open>data['data'][0]['plantId']\<close>\<close>

definition first_plant_id :: "pyval \<Rightarrow> exn + pyval" where
  "first_plant_id data =
     bind_exn (getitem_key data ''data'') (\<lambda>plants.
     bind_exn (getitem_0 plants) (\<lambda>plant.
       getitem_key plant ''plantId''))"

text \<open>
  One pass through the loop body of \<^verbatim>\<open>login\<close>. It yields what the \<^verbatim>\<open>try\<close> block did: a normal
  return or the exception raised, the state of the client at that point, and the events.
\<close>

definition login_attempt ::
  "attempt_env \<Rightarrow> string \<Rightarrow> string \<Rightarrow> nat \<Rightarrow> api_state \<Rightarrow> (exn + unit) \<times> api_state \<times> event list"
where
  "login_attempt a username password i s =
     (if \<not> is_connected a then
        (Inl (Exn WiFiNotConnected ''Wifi not connected''), s, [LoginAttempt i])
      else
        let evs = [LoginAttempt i,
                   HttpPost (get_url ''newTwoLoginAPI.do'') (headers s)
                     [(''userName'', username), (''password'', password)]]
        in case http_result a of
             Inl e \<Rightarrow> (Inl e, s, evs)
           | Inr response \<Rightarrow>
               (case login_data response of
                  Inl e \<Rightarrow> (Inl e, s, evs)
                | Inr data \<Rightarrow>
                    (case (if plant_id s = PNone
                           then map_sum id (\<lambda>p. s\<lparr>plant_id := p\<rparr>) (first_plant_id data)
                           else Inr s) of
                       Inl e \<Rightarrow> (Inl e, s, evs)
                     | Inr s1 \<Rightarrow>
                         (case map_of (resp_headers response) ''set-cookie'' of
                            None \<Rightarrow> (Inl (Exn KeyError ''set-cookie''), s1, evs)
                          | Some c \<Rightarrow> (Inr (), s1\<lparr>cookies := PStr c\<rparr>, evs)))))"

text \<open>
  The \<^verbatim>\<open>for\<close> loop with its \<^verbatim>\<open>except\<close> clause: a caught error on pass \<open>i \<ge> 2\<close> raises
  \<^verbatim>\<open>SerialLoginErrors\<close>, an earlier one runs the retry action and goes on; any other exception
  leaves the function.
\<close>

fun login_loop ::
  "(nat \<Rightarrow> attempt_env) \<Rightarrow> string \<Rightarrow> string \<Rightarrow> nat list \<Rightarrow> api_state
     \<Rightarrow> (exn + unit) \<times> api_state \<times> event list"
where
  "login_loop env username password [] s = (Inr (), s, [])"
| "login_loop env username password (i # rest) s =
     (case login_attempt (env i) username password i s of
        (Inr u, s1, evs) \<Rightarrow> (Inr (), s1, evs)
      | (Inl error, s1, evs) \<Rightarrow>
          if caught error then
            (if i \<ge> 2 then
               (Inl (Exn SerialLoginErrors ''Serial login errors. Let's try something else!''),
                s1, evs)
             else
               (case login_loop env username password rest s1 of
                  (r, s2, evs2) \<Rightarrow> (r, s2, evs @ retry_action error @ evs2)))
          else (Inl error, s1, evs))"

definition login ::
  "runtime \<Rightarrow> (nat \<Rightarrow> attempt_env) \<Rightarrow> string \<Rightarrow> string \<Rightarrow> pyval \<Rightarrow> api_state
     \<Rightarrow> (exn + unit) \<times> api_state \<times> event list"
where
  "login rt env username password plant s =
     (let hashed = hash_password (rt_md5 rt) password;
          s0 = (if plant \<noteq> PNone then s\<lparr>plant_id := plant\<rparr> else s)
      in login_loop env username hashed [1..<3] s0)"

subsection \<open>get_plant_info\<close>

text \<open>\<^verbatim>\<open>data['deviceList'][0]['power']\<close> of the decoded body.\<close>

definition current_reading :: "response \<Rightarrow> exn + pyval" where
  "current_reading response =
     bind_exn (content_json response) (\<lambda>data.
     bind_exn (getitem_key data ''deviceList'') (\<lambda>devices.
     bind_exn (getitem_0 devices) (\<lambda>device.
       getitem_key device ''power'')))"

text \<open>\<^verbatim>\<open>int(float(current_reading))\<close>\<close>

definition read_power :: "runtime \<Rightarrow> response \<Rightarrow> exn + int" where
  "read_power rt response =
     bind_exn (current_reading response) (\<lambda>raw.
     bind_exn (py_float rt raw) py_int)"

definition plant_url :: "runtime \<Rightarrow> pyval \<Rightarrow> string" where
  "plant_url rt pid =
     get_url ''newTwoPlantAPI.do'' @ ''?op=getAllDeviceList&plantId='' @ py_str rt pid
       @ ''&pageNum=1&pageSize=1''"

definition get_plant_info_attempt ::
  "runtime \<Rightarrow> attempt_env \<Rightarrow> nat \<Rightarrow> api_state \<Rightarrow> (exn + unit) \<times> api_state \<times> event list"
where
  "get_plant_info_attempt rt a i s =
     (if \<not> is_connected a then
        (Inl (Exn WiFiNotConnected ''Wifi not connected''), s, [PollAttempt i])
      else
        let s1 = s\<lparr>headers := AList.update ''Cookie'' (cookies s) (headers s)\<rparr>;
            evs = [PollAttempt i, HttpGet (plant_url rt (plant_id s1)) (headers s1)]
        in case http_result a of
             Inl e \<Rightarrow> (Inl e, s1, evs)
           | Inr response \<Rightarrow>
               if status_code response \<noteq> 200 then
                 (Inl (Exn NotLoggedIn ''Apparently not logged in''), s1, evs)
               else
                 (case read_power rt response of
                    Inl e \<Rightarrow> (Inl e, s1, evs)
                  | Inr p \<Rightarrow> (Inr (), s1\<lparr>power_reading := Some p\<rparr>, evs)))"

fun get_plant_info_loop ::
  "runtime \<Rightarrow> (nat \<Rightarrow> attempt_env) \<Rightarrow> nat list \<Rightarrow> api_state
     \<Rightarrow> (exn + unit) \<times> api_state \<times> event list"
where
  "get_plant_info_loop rt env [] s = (Inr (), s, [])"
| "get_plant_info_loop rt env (i # rest) s =
     (case get_plant_info_attempt rt (env i) i s of
        (Inr u, s1, evs) \<Rightarrow> (Inr (), s1, evs)
      | (Inl error, s1, evs) \<Rightarrow>
          if caught error then
            (if i \<ge> 3 then
               (Inl (Exn NotLoggedIn ''Serial errors. Trying login again.''), s1, evs)
             else
               (case get_plant_info_loop rt env rest s1 of
                  (r, s2, evs2) \<Rightarrow> (r, s2, evs @ retry_action error @ evs2)))
          else (Inl error, s1, evs))"

definition get_plant_info ::
  "runtime \<Rightarrow> (nat \<Rightarrow> attempt_env) \<Rightarrow> api_state \<Rightarrow> (exn + unit) \<times> api_state \<times> event list"
where
  "get_plant_info rt env s = get_plant_info_loop rt env [1..<4] s"

section \<open>The main loop\<close>

text \<open>
  The two nested \<^verbatim>\<open>while True\<close> loops as a machine with one step per call of \<^verbatim>\<open>login\<close> or
  \<^verbatim>\<open>get_plant_info\<close>. Each step is given the answers of the surroundings for that call; the
  program itself runs until \<^verbatim>\<open>exit\<close>.
\<close>

datatype phase = LoggingIn | Polling | Exited int

record credentials =
  growatt_username :: string
  growatt_password :: string
  growatt_plant_id :: pyval

record machine =
  api :: api_state
  phase :: phase
  trace :: "event list"

definition always_retry_after_any_exception :: bool where
  "always_retry_after_any_exception = False"

definition minimum_power_threshold :: int where
  "minimum_power_threshold = 10"

text \<open>The \<^verbatim>\<open>except\<close> clauses of the outer \<^verbatim>\<open>try\<close>, in their order.\<close>

definition outer_except :: "exn \<Rightarrow> machine \<Rightarrow> machine" where
  "outer_except e m =
     (if cls_of e = NotLoggedIn then
        m\<lparr>phase := Exited 1, trace := trace m @ [Exit 1]\<rparr>
      else if cls_of e = SerialLoginErrors then
        m\<lparr>phase := LoggingIn, trace := trace m @ [WifiReset]\<rparr>
      else if always_retry_after_any_exception then
        m\<lparr>phase := LoggingIn, trace := trace m @ [Sleep 10, WifiReset]\<rparr>
      else
        m\<lparr>phase := Exited 1, trace := trace m @ [Exit 1]\<rparr>)"

text \<open>The pause after a reading: two minutes at or above the threshold, twenty below.\<close>

definition poll_pause :: "int option \<Rightarrow> event list" where
  "poll_pause p =
     (case p of
        None \<Rightarrow> []
      | Some w \<Rightarrow> if minimum_power_threshold \<le> w then [Sleep (60 * 2)] else [Sleep (60 * 20)])"

definition main_step :: "runtime \<Rightarrow> credentials \<Rightarrow> (nat \<Rightarrow> attempt_env) \<Rightarrow> machine \<Rightarrow> machine" where
  "main_step rt cr env m =
     (case phase m of
        Exited c \<Rightarrow> m
      | LoggingIn \<Rightarrow>
          (case login rt env (growatt_username cr) (growatt_password cr) (growatt_plant_id cr) (api m) of
             (Inr u, s, evs) \<Rightarrow> m\<lparr>api := s, phase := Polling, trace := trace m @ evs\<rparr>
           | (Inl e, s, evs) \<Rightarrow> outer_except e (m\<lparr>api := s, trace := trace m @ evs\<rparr>))
      | Polling \<Rightarrow>
          (case get_plant_info rt env (api m) of
             (Inr u, s, evs) \<Rightarrow>
               m\<lparr>api := s,
                 trace := trace m @ [ShowPlaceholder] @ evs @ [UpdateDisplay (power_reading s)]
                            @ poll_pause (power_reading s)\<rparr>
           | (Inl e, s, evs) \<Rightarrow>
               (let m1 = m\<lparr>api := s, trace := trace m @ [ShowPlaceholder] @ evs\<rparr>
                in if cls_of e = NotLoggedIn then m1\<lparr>phase := LoggingIn\<rparr>
                   else outer_except e m1)))"

fun main_run :: "runtime \<Rightarrow> credentials \<Rightarrow> (nat \<Rightarrow> attempt_env) list \<Rightarrow> machine \<Rightarrow> machine" where
  "main_run rt cr [] m = m"
| "main_run rt cr (env # envs) m = main_run rt cr envs (main_step rt cr env m)"

definition start :: machine where
  "start = \<lparr>api = GrowattApi, phase = LoggingIn, trace = []\<rparr>"

section \<open>Observations on a run\<close>

abbreviation result_of :: "(exn + unit) \<times> api_state \<times> event list \<Rightarrow> exn + unit" where
  "result_of r \<equiv> fst r"

abbreviation state_after :: "(exn + unit) \<times> api_state \<times> event list \<Rightarrow> api_state" where
  "state_after r \<equiv> fst (snd r)"

abbreviation events_of :: "(exn + unit) \<times> api_state \<times> event list \<Rightarrow> event list" where
  "events_of r \<equiv> snd (snd r)"

text \<open>The numbers of the loop passes that were started, in order.\<close>

fun attempt_no :: "event \<Rightarrow> nat option" where
  "attempt_no (LoginAttempt i) = Some i"
| "attempt_no (PollAttempt i) = Some i"
| "attempt_no ev = None"

definition attempts_made :: "event list \<Rightarrow> nat list" where
  "attempts_made evs = List.map_filter attempt_no evs"

text \<open>What was done between two passes: waits and calls into the Wi-Fi controller.\<close>

fun is_escalation :: "event \<Rightarrow> bool" where
  "is_escalation (Sleep n) = True"
| "is_escalation WifiConnect = True"
| "is_escalation WifiReset = True"
| "is_escalation ev = False"

definition escalations :: "event list \<Rightarrow> event list" where
  "escalations evs = filter is_escalation evs"

fun is_display_update :: "event \<Rightarrow> bool" where
  "is_display_update (UpdateDisplay p) = True"
| "is_display_update ev = False"

text \<open>A pass that ended in an exception of one of the classes the retry loops catch.\<close>

definition transport_failure :: "(exn + unit) \<times> api_state \<times> event list \<Rightarrow> bool" where
  "transport_failure r = (case fst r of Inl e \<Rightarrow> caught e | Inr u \<Rightarrow> False)"

text \<open>
  The plant list entry named by the specification, \<^verbatim>\<open>back.data[0].plantId\<close> of the decoded login
  response.
\<close>

definition response_plant_id :: "response \<Rightarrow> exn + pyval" where
  "response_plant_id response =
     bind_exn (content_json response) (\<lambda>decoded.
     bind_exn (getitem_key decoded ''back'') first_plant_id)"

text \<open>The class of the exception a call ended with, if any.\<close>

definition raised_class :: "exn + unit \<Rightarrow> exn_class option" where
  "raised_class r = (case r of Inl e \<Rightarrow> Some (cls_of e) | Inr u \<Rightarrow> None)"

text \<open>The addresses of the GET requests that were sent, in order.\<close>

fun get_url_of :: "event \<Rightarrow> string option" where
  "get_url_of (HttpGet url hdrs) = Some url"
| "get_url_of ev = None"

definition requested_urls :: "event list \<Rightarrow> string list" where
  "requested_urls evs = List.map_filter get_url_of evs"

section \<open>Sample surroundings\<close>

text \<open>
  Concrete runtimes, responses and credentials on which the theorems below are run. The sample
  runtime knows the MD5 digests of two passwords, reads three strings as floats, and converts
  the integers up to \<open>2 ^ 24\<close> in magnitude, which it holds exactly; a larger integer is beyond
  the range of its floats.
\<close>

definition sample_runtime :: runtime where
  "sample_runtime =
     \<lparr>rt_md5 = (\<lambda>p. if p = [] then ''d41d8cd98f00b204e9800998ecf8427e''
                     else ''5f4dcc3b5aa765d61d8327deb882cf99''),
      rt_float = map_of [(''1499.9'', Finite (14999 / 10)), (''-0.5'', Finite (- 1 / 2)),
                         (''inf'', PosInf)],
      rt_float_int = (\<lambda>n. if \<bar>n\<bar> \<le> 16777216 then Some (Finite (of_int n)) else None),
      rt_repr = (\<lambda>v. ''?'')\<rparr>"

definition sample_credentials :: credentials where
  "sample_credentials =
     \<lparr>growatt_username = ''user'', growatt_password = ''password'', growatt_plant_id = PNone\<rparr>"

definition link_down :: attempt_env where
  "link_down = \<lparr>is_connected = False, http_result = Inl (Exn OtherException [])\<rparr>"

definition request_raises :: "exn \<Rightarrow> attempt_env" where
  "request_raises e = \<lparr>is_connected = True, http_result = Inl e\<rparr>"

definition request_answers :: "response \<Rightarrow> attempt_env" where
  "request_answers r = \<lparr>is_connected = True, http_result = Inr r\<rparr>"

definition login_accepted :: "string \<Rightarrow> response" where
  "login_accepted plant =
     \<lparr>status_code = 200,
      content_json = Inr (PDict [(''back'', PDict
        [(''success'', PBool True),
         (''user'', PDict [(''id'', PInt 7), (''rightlevel'', PInt 1)]),
         (''data'', PList [PDict [(''plantId'', PStr plant)]])])]),
      resp_headers = [(''set-cookie'', ''JSESSIONID=abc'')]\<rparr>"

definition login_rejected :: response where
  "login_rejected =
     \<lparr>status_code = 200,
      content_json = Inr (PDict [(''back'', PDict [(''success'', PBool False)])]),
      resp_headers = []\<rparr>"

definition device_list :: "int \<Rightarrow> (string \<times> pyval) list \<Rightarrow> response" where
  "device_list code device =
     \<lparr>status_code = code,
      content_json = Inr (PDict [(''deviceList'', PList [PDict device])]),
      resp_headers = []\<rparr>"

definition bad_json :: response where
  "bad_json = \<lparr>status_code = 200, content_json = Inl (Exn ValueError ''syntax error in JSON''),
      resp_headers = []\<rparr>"

definition always_times_out :: "nat \<Rightarrow> attempt_env" where
  "always_times_out = (\<lambda>i. request_raises (Exn RuntimeError ''Timed out waiting for SPI char''))"

definition mixed_failures :: "nat \<Rightarrow> attempt_env" where
  "mixed_failures =
     (\<lambda>i. if i = 1 then link_down
          else if i = 2 then request_raises (Exn OutOfRetries ''Repeated socket failures'')
          else request_answers bad_json)"

definition rejected_at_once :: "nat \<Rightarrow> attempt_env" where
  "rejected_at_once = (\<lambda>i. request_answers login_rejected)"

definition expired_on_second :: "nat \<Rightarrow> attempt_env" where
  "expired_on_second =
     (\<lambda>i. if i = 1 then request_raises (Exn RuntimeError ''Timed out waiting for SPI char'')
          else request_answers (device_list 302 []))"

definition down_then_accepted :: "nat \<Rightarrow> attempt_env" where
  "down_then_accepted =
     (\<lambda>i. if i = 1 then link_down else request_answers (login_accepted ''PLANT123''))"

definition timeout_then_accepted :: "nat \<Rightarrow> attempt_env" where
  "timeout_then_accepted =
     (\<lambda>i. if i = 1 then request_raises (Exn RuntimeError ''Timed out waiting for SPI char'')
          else request_answers (login_accepted ''PLANT123''))"

definition error_response_then_accepted :: "nat \<Rightarrow> attempt_env" where
  "error_response_then_accepted =
     (\<lambda>i. if i = 1 then request_raises (Exn RuntimeError ''Error response to command'')
          else request_answers (login_accepted ''PLANT123''))"

definition reads_power :: "pyval \<Rightarrow> nat \<Rightarrow> attempt_env" where
  "reads_power raw = (\<lambda>i. request_answers (device_list 200 [(''power'', raw)]))"

definition no_power_field :: "nat \<Rightarrow> attempt_env" where
  "no_power_field = (\<lambda>i. request_answers (device_list 200 [(''deviceSn'', PStr ''ABC123'')]))"

definition accepted_with :: "string \<Rightarrow> nat \<Rightarrow> attempt_env" where
  "accepted_with plant = (\<lambda>i. request_answers (login_accepted plant))"

definition session_expired :: "nat \<Rightarrow> attempt_env" where
  "session_expired = (\<lambda>i. request_answers (device_list 302 []))"

subsection \<open>The loop computes the specified transformation\<close>

lemma set_range_step2: "set (range_step2 n) = {i. i < n \<and> even i}"
proof -
  have "\<And>i. i < n \<Longrightarrow> even i \<Longrightarrow> i \<in> (\<lambda>k. 2 * k) ` {0..<(n + 1) div 2}"
  proof -
    fix i :: nat
    assume "i < n" and "even i"
    then obtain k where k: "i = 2 * k" by (auto elim: evenE)
    with \<open>i < n\<close> have "k < (n + 1) div 2" by arith
    with k show "i \<in> (\<lambda>k. 2 * k) ` {0..<(n + 1) div 2}" by auto
  qed
  moreover have "\<And>k. k < (n + 1) div 2 \<Longrightarrow> 2 * k < n" by arith
  ultimately show ?thesis by (auto simp: range_step2_def)
qed

lemma distinct_range_step2: "distinct (range_step2 n)"
  by (simp add: range_step2_def distinct_map inj_on_def)

lemma splice_is_update:
  "i < length s \<Longrightarrow> take i s @ ''c'' @ drop (i + 1) s = s[i := CHR ''c'']"
  by (simp add: upd_conv_take_nth_drop)

lemma replace_zeros_length:
  "\<forall>i \<in> set js. i < length s \<Longrightarrow> length (replace_zeros js s) = length s"
proof (induction js arbitrary: s)
  case Nil
  show ?case by simp
next
  case (Cons i js)
  let ?s' = "if s ! i = CHR ''0'' then take i s @ ''c'' @ drop (i + 1) s else s"
  from Cons.prems have i: "i < length s" by simp
  have len: "length ?s' = length s" using splice_is_update [OF i] by simp
  with Cons.prems have "\<forall>j \<in> set js. j < length ?s'" by simp
  from Cons.IH [OF this] len show ?case by simp
qed

lemma replace_zeros_nth:
  "distinct js \<Longrightarrow> \<forall>i \<in> set js. i < length s \<Longrightarrow> j < length s \<Longrightarrow>
   replace_zeros js s ! j = (if j \<in> set js \<and> s ! j = CHR ''0'' then CHR ''c'' else s ! j)"
proof (induction js arbitrary: s)
  case Nil
  show ?case by simp
next
  case (Cons i js)
  let ?s' = "if s ! i = CHR ''0'' then take i s @ ''c'' @ drop (i + 1) s else s"
  from Cons.prems have i: "i < length s" and fresh: "i \<notin> set js" and d: "distinct js"
    by simp_all
  have upd: "?s' = (if s ! i = CHR ''0'' then s[i := CHR ''c''] else s)"
    using splice_is_update [OF i] by simp
  then have len: "length ?s' = length s" by simp
  with Cons.prems have bounds: "\<forall>k \<in> set js. k < length ?s'" and j: "j < length ?s'"
    by simp_all
  have "replace_zeros (i # js) s ! j = replace_zeros js ?s' ! j" by simp
  also have "\<dots> = (if j \<in> set js \<and> ?s' ! j = CHR ''0'' then CHR ''c'' else ?s' ! j)"
    by (rule Cons.IH [OF d bounds j])
  also have "\<dots> = (if j \<in> set (i # js) \<and> s ! j = CHR ''0'' then CHR ''c'' else s ! j)"
  proof (cases "j = i")
    case True
    with fresh i show ?thesis unfolding upd by simp
  next
    case False
    with Cons.prems(3) show ?thesis unfolding upd by simp
  qed
  finally show ?case .
qed

lemma even_zero_to_c_length: "length (even_zero_to_c s) = length s"
  by (simp add: even_zero_to_c_def)

lemma even_zero_to_c_nth:
  "j < length s \<Longrightarrow>
   even_zero_to_c s ! j = (if even j \<and> s ! j = CHR ''0'' then CHR ''c'' else s ! j)"
  by (simp add: even_zero_to_c_def nth_enumerate_eq)

lemma replace_zeros_refines:
  "replace_zeros (range_step2 (length s)) s = even_zero_to_c s"
proof (rule nth_equalityI)
  have b: "\<forall>i \<in> set (range_step2 (length s)). i < length s"
    by (simp add: set_range_step2)
  show "length (replace_zeros (range_step2 (length s)) s) = length (even_zero_to_c s)"
    by (simp add: replace_zeros_length [OF b] even_zero_to_c_length)
  fix j
  assume "j < length (replace_zeros (range_step2 (length s)) s)"
  then have j: "j < length s" by (simp add: replace_zeros_length [OF b])
  show "replace_zeros (range_step2 (length s)) s ! j = even_zero_to_c s ! j"
    by (simp add: replace_zeros_nth [OF distinct_range_step2 b j] even_zero_to_c_nth [OF j]
        set_range_step2 j)
qed

text \<open>
  Claim C4. \<^verbatim>\<open>hash_password\<close> is a function of the password alone (for the MD5 routine in use),
  and its result is the MD5 hex digest in which every \<^verbatim>\<open>'0'\<close> found at an even offset
  0, 2, 4, ... has become \<^verbatim>\<open>'c'\<close>, while the length and all other positions are unchanged.
\<close>

theorem hash_password_even_zero_to_c:
  "hash_password md5_hex password = even_zero_to_c (md5_hex password) \<and>
   length (hash_password md5_hex password) = length (md5_hex password) \<and>
   (\<forall>i < length (md5_hex password).
      hash_password md5_hex password ! i =
        (if even i \<and> md5_hex password ! i = CHR ''0'' then CHR ''c''
         else md5_hex password ! i))"
  by (simp add: hash_password_def replace_zeros_refines even_zero_to_c_length
      even_zero_to_c_nth)

text \<open>
  The digest of the empty password, \<^verbatim>\<open>d41d8cd98f00b204e9800998ecf8427e\<close>, has \<^verbatim>\<open>'0'\<close> at the offsets
  10, 11, 14, 19 and 20; only those at 10, 14 and 20 are replaced.
\<close>

theorem hash_password_even_zero_to_c_witness:
  "hash_password (\<lambda>_. ''d41d8cd98f00b204e9800998ecf8427e'') ''''
     = ''d41d8cd98fc0b2c4e980c998ecf8427e''"
  using hash_password_even_zero_to_c
    [of "\<lambda>_. ''d41d8cd98f00b204e9800998ecf8427e''" "''''"]
  by (simp add: even_zero_to_c_def enumerate_eq_zip upt_rec)

section \<open>Properties of the retry loops\<close>

lemma upt_1_3: "[1..<3] = [1, 2::nat]"
  by (simp add: upt_rec)

lemma upt_1_4: "[1..<4] = [1, 2, 3::nat]"
  by (simp add: upt_rec)

lemma login_unfold:
  "login rt env u pw plant s =
     login_loop env u (hash_password (rt_md5 rt) pw) [1, 2]
       (if plant \<noteq> PNone then s\<lparr>plant_id := plant\<rparr> else s)"
  by (simp only: login_def Let_def upt_1_3)

lemma get_plant_info_unfold:
  "get_plant_info rt env s = get_plant_info_loop rt env [1, 2, 3] s"
  by (simp only: get_plant_info_def upt_1_4)

lemma attempts_made_append [simp]:
  "attempts_made (xs @ ys) = attempts_made xs @ attempts_made ys"
  by (simp add: attempts_made_def map_filter_def)

lemma attempts_made_retry_action [simp]: "attempts_made (retry_action e) = []"
  by (simp add: retry_action_def attempts_made_def map_filter_def)

lemma attempts_made_poll_attempt:
  "get_plant_info_attempt rt a i s = (r, s1, evs) \<Longrightarrow> attempts_made evs = [i]"
  by (auto simp: get_plant_info_attempt_def attempts_made_def map_filter_def Let_def
      split: sum.splits if_splits)

lemma attempts_made_login_attempt:
  "login_attempt a u p i s = (r, s1, evs) \<Longrightarrow> attempts_made evs = [i]"
  by (auto simp: login_attempt_def attempts_made_def map_filter_def Let_def
      split: sum.splits option.splits if_splits)

lemma transport_failureE:
  assumes "transport_failure r"
  obtains e s1 evs where "r = (Inl e, s1, evs)" and "caught e"
  using assms by (cases r) (auto simp: transport_failure_def split: sum.splits)

lemma poll_loop_caught:
  assumes "get_plant_info_attempt rt (env i) i s = (Inl e, s1, evs)" and "caught e"
  shows "get_plant_info_loop rt env (i # rest) s =
           (if i \<ge> 3 then (Inl (Exn NotLoggedIn ''Serial errors. Trying login again.''), s1, evs)
            else (case get_plant_info_loop rt env rest s1 of
                    (r, s2, evs2) \<Rightarrow> (r, s2, evs @ retry_action e @ evs2)))"
  using assms by simp

lemma login_loop_caught:
  assumes "login_attempt (env i) u p i s = (Inl e, s1, evs)" and "caught e"
  shows "login_loop env u p (i # rest) s =
           (if i \<ge> 2 then
              (Inl (Exn SerialLoginErrors ''Serial login errors. Let's try something else!''),
               s1, evs)
            else (case login_loop env u p rest s1 of
                    (r, s2, evs2) \<Rightarrow> (r, s2, evs @ retry_action e @ evs2)))"
  using assms by simp

lemma main_run_exited: "phase m = Exited c \<Longrightarrow> main_run rt cr envs m = m"
  by (induction envs) (simp_all add: main_step_def)

lemma login_attempt_rejected:
  assumes "is_connected a" and "http_result a = Inr response"
    and "content_json response = Inr decoded" and "getitem_key decoded ''back'' = Inr data"
    and "getitem_key data ''success'' = Inr flag" and "\<not> truthy flag"
  shows "login_attempt a u p i s =
           (Inl (Exn NotLoggedIn []), s,
            [LoginAttempt i,
             HttpPost (get_url ''newTwoLoginAPI.do'') (headers s)
               [(''userName'', u), (''password'', p)]])"
  using assms by (simp add: login_attempt_def login_data_def)

text \<open>The definitions that evaluate a run on concrete surroundings.\<close>

lemmas run_defs =
  login_unfold get_plant_info_unfold login_attempt_def get_plant_info_attempt_def
  login_data_def first_plant_id_def current_reading_def read_power_def py_float_def py_int_def
  py_str_def plant_url_def get_url_def server_url_def caught_def retry_action_def
  main_step_def outer_except_def poll_pause_def minimum_power_threshold_def
  always_retry_after_any_exception_def GrowattApi_def start_def
  attempts_made_def map_filter_def escalations_def raised_class_def transport_failure_def
  sample_runtime_def sample_credentials_def link_down_def request_raises_def
  request_answers_def login_accepted_def login_rejected_def device_list_def bad_json_def

lemma poll_attempt_bad_status:
  assumes "is_connected a" and "http_result a = Inr response" and "status_code response \<noteq> 200"
  shows "\<exists>s1 evs. get_plant_info_attempt rt a i s
           = (Inl (Exn NotLoggedIn ''Apparently not logged in''), s1, evs)"
  using assms by (simp add: get_plant_info_attempt_def Let_def)

lemma poll_loop_bad_status:
  assumes "\<forall>j \<in> set pre. j < 3 \<and> (\<forall>s. transport_failure (get_plant_info_attempt rt (env j) j s))"
    and "is_connected (env k)" and "http_result (env k) = Inr response"
    and "status_code response \<noteq> 200"
  shows "result_of (get_plant_info_loop rt env (pre @ k # rest) s)
           = Inl (Exn NotLoggedIn ''Apparently not logged in'') \<and>
         attempts_made (events_of (get_plant_info_loop rt env (pre @ k # rest) s)) = pre @ [k]"
  using assms(1)
proof (induction pre arbitrary: s)
  case Nil
  from poll_attempt_bad_status [OF assms(2-4)] obtain s1 evs
    where a: "get_plant_info_attempt rt (env k) k s
                = (Inl (Exn NotLoggedIn ''Apparently not logged in''), s1, evs)"
    by blast
  show ?case
    by (simp add: a caught_def attempts_made_poll_attempt [OF a])
next
  case (Cons j pre)
  from Cons.prems have "transport_failure (get_plant_info_attempt rt (env j) j s)" and j: "j < 3"
    by simp_all
  then obtain e s1 evs
    where a: "get_plant_info_attempt rt (env j) j s = (Inl e, s1, evs)" and c: "caught e"
    by (auto elim: transport_failureE)
  from Cons.prems have
    "\<forall>j \<in> set pre. j < 3 \<and> (\<forall>s. transport_failure (get_plant_info_attempt rt (env j) j s))"
    by simp
  from Cons.IH [OF this, of s1] j show ?case
    by (cases "get_plant_info_loop rt env (pre @ k # rest) s1")
      (simp add: a c attempts_made_poll_attempt [OF a])
qed

lemma login_attempt_link_down:
  "\<not> is_connected a \<Longrightarrow>
   login_attempt a u p i s = (Inl (Exn WiFiNotConnected ''Wifi not connected''), s, [LoginAttempt i])"
  by (simp add: login_attempt_def)

lemma poll_attempt_link_down:
  "\<not> is_connected a \<Longrightarrow>
   get_plant_info_attempt rt a i s
     = (Inl (Exn WiFiNotConnected ''Wifi not connected''), s, [PollAttempt i])"
  by (simp add: get_plant_info_attempt_def)

lemma poll_attempt_failed_power:
  "get_plant_info_attempt rt a i s = (Inl e, s1, evs) \<Longrightarrow> power_reading s1 = power_reading s"
  by (auto simp: get_plant_info_attempt_def Let_def split: if_splits sum.splits)

lemma poll_attempt_power_changed:
  assumes "power_reading (state_after (get_plant_info_attempt rt a i s)) \<noteq> power_reading s"
  shows "result_of (get_plant_info_attempt rt a i s) = Inr () \<and> is_connected a \<and>
         (\<exists>response p. http_result a = Inr response \<and> status_code response = 200 \<and>
            read_power rt response = Inr p \<and>
            power_reading (state_after (get_plant_info_attempt rt a i s)) = Some p)"
  using assms
  by (auto simp: get_plant_info_attempt_def Let_def split: if_splits sum.splits)

lemma poll_loop_failed_power:
  "get_plant_info_loop rt env js s = (Inl e, s1, evs) \<Longrightarrow> power_reading s1 = power_reading s"
proof (induction js arbitrary: s s1 evs)
  case Nil
  then show ?case by simp
next
  case (Cons i js)
  obtain r sa eva where a: "get_plant_info_attempt rt (env i) i s = (r, sa, eva)"
    by (cases "get_plant_info_attempt rt (env i) i s")
  show ?case
  proof (cases r)
    case (Inr u)
    with Cons.prems a show ?thesis by simp
  next
    case (Inl e')
    with a have keep: "power_reading sa = power_reading s" by (simp add: poll_attempt_failed_power)
    show ?thesis
    proof (cases "caught e' \<and> i < 3")
      case True
      obtain r2 s2 evs2 where rec: "get_plant_info_loop rt env js sa = (r2, s2, evs2)"
        by (cases "get_plant_info_loop rt env js sa")
      with Cons.prems a Inl True have "r2 = Inl e" and "s2 = s1" by simp_all
      with rec Cons.IH [of sa s1 evs2] keep show ?thesis by simp
    next
      case False
      with Cons.prems a Inl keep show ?thesis by (auto split: if_splits)
    qed
  qed
qed

lemma poll_attempt_no_display:
  "filter is_display_update (events_of (get_plant_info_attempt rt a i s)) = []"
  by (simp add: get_plant_info_attempt_def Let_def split: sum.splits)

lemma retry_action_no_display: "filter is_display_update (retry_action e) = []"
  by (simp add: retry_action_def)

lemma poll_loop_no_display:
  "filter is_display_update (events_of (get_plant_info_loop rt env js s)) = []"
proof (induction js arbitrary: s)
  case Nil
  show ?case by simp
next
  case (Cons i js)
  obtain r sa eva where a: "get_plant_info_attempt rt (env i) i s = (r, sa, eva)"
    by (cases "get_plant_info_attempt rt (env i) i s")
  with poll_attempt_no_display [of rt "env i" i s]
  have eva: "filter is_display_update eva = []" by simp
  obtain r2 s2 evs2 where rec: "get_plant_info_loop rt env js sa = (r2, s2, evs2)"
    by (cases "get_plant_info_loop rt env js sa")
  with Cons.IH [of sa] have evs2: "filter is_display_update evs2 = []" by simp
  show ?case
    by (cases r) (simp_all add: a rec eva evs2 retry_action_no_display)
qed

lemma bind_exn_eq_Inr:
  "bind_exn x f = Inr y \<longleftrightarrow> (\<exists>v. x = Inr v \<and> f v = Inr y)"
  by (cases x) simp_all

lemma bind_exn_eq_Inl:
  "bind_exn x f = Inl e \<longleftrightarrow> x = Inl e \<or> (\<exists>v. x = Inr v \<and> f v = Inl e)"
  by (cases x) simp_all

lemma trunc_towards_zero: "\<bar>of_int (trunc r)\<bar> \<le> \<bar>r\<bar> \<and> \<bar>r - of_int (trunc r)\<bar> < 1"
proof (cases "0 \<le> r")
  case True
  then have "0 \<le> \<lfloor>r\<rfloor>" by simp
  moreover have "of_int \<lfloor>r\<rfloor> \<le> r" and "r < of_int \<lfloor>r\<rfloor> + 1" by linarith+
  ultimately show ?thesis using True by (simp add: trunc_def)
next
  case False
  then have "\<lceil>r\<rceil> \<le> 0" by (simp add: ceiling_le_iff)
  moreover have "r \<le> of_int \<lceil>r\<rceil>" and "of_int \<lceil>r\<rceil> - 1 < r" by linarith+
  ultimately show ?thesis using False by (simp add: trunc_def)
qed

lemma trunc_sample_positive: "trunc (14999 / 10) = 1499"
proof -
  have "\<lfloor>14999 / 10 :: rat\<rfloor> = 1499" by (rule floor_unique) simp_all
  then show ?thesis by (simp add: trunc_def)
qed

lemma trunc_sample_negative: "trunc (- (1 / 2)) = 0"
proof -
  have "\<lceil>- (1 / 2) :: rat\<rceil> = 0" by (rule ceiling_unique) simp_all
  then show ?thesis by (simp add: trunc_def)
qed

lemma getitem_key_error: "getitem_key v k = Inl e \<Longrightarrow> \<not> caught e"
  by (cases v) (auto simp: caught_def split: option.splits)

lemma getitem_0_error: "getitem_0 v = Inl e \<Longrightarrow> \<not> caught e"
  by (cases v rule: getitem_0.cases) (auto simp: caught_def)

lemma current_reading_error:
  "content_json response = Inr data \<Longrightarrow> current_reading response = Inl e \<Longrightarrow> \<not> caught e"
  by (auto simp: current_reading_def bind_exn_eq_Inl dest: getitem_key_error getitem_0_error)

lemma poll_attempt_success:
  assumes "get_plant_info_attempt rt a i s = (Inr u, s1, evs)"
  shows "is_connected a \<and>
         (\<exists>response raw r. http_result a = Inr response \<and> status_code response = 200 \<and>
            current_reading response = Inr raw \<and> py_float rt raw = Inr (Finite r) \<and>
            power_reading s1 = Some (trunc r))"
proof -
  from assms have up: "is_connected a"
    by (auto simp: get_plant_info_attempt_def split: if_splits)
  with assms obtain response p
    where h: "http_result a = Inr response" and st: "status_code response = 200"
      and rp: "read_power rt response = Inr p" and s1: "power_reading s1 = Some p"
    by (auto simp: get_plant_info_attempt_def Let_def split: if_splits sum.splits)
  from rp obtain raw f
    where raw: "current_reading response = Inr raw" and f: "py_float rt raw = Inr f"
      and p: "py_int f = Inr p"
    by (auto simp: read_power_def bind_exn_eq_Inr)
  from p obtain r where "f = Finite r" and "p = trunc r"
    by (cases f) (auto simp: py_int_def)
  with up h st raw f s1 show ?thesis by auto
qed

lemma poll_loop_success:
  assumes "result_of (get_plant_info_loop rt env js s) = Inr ()"
  shows "(\<exists>k \<in> set js. \<exists>response raw r.
            is_connected (env k) \<and> http_result (env k) = Inr response \<and>
            status_code response = 200 \<and> current_reading response = Inr raw \<and>
            py_float rt raw = Inr (Finite r) \<and>
            power_reading (state_after (get_plant_info_loop rt env js s)) = Some (trunc r)) \<or>
         (\<forall>j \<in> set js. j < 3)"
  using assms
proof (induction js arbitrary: s)
  case Nil
  show ?case by simp
next
  case (Cons i js)
  obtain r sa eva where a: "get_plant_info_attempt rt (env i) i s = (r, sa, eva)"
    by (cases "get_plant_info_attempt rt (env i) i s")
  show ?case
  proof (cases r)
    case (Inr u)
    with a poll_attempt_success [of rt "env i" i s u sa eva] show ?thesis by auto
  next
    case (Inl e)
    obtain r2 s2 evs2 where rec: "get_plant_info_loop rt env js sa = (r2, s2, evs2)"
      by (cases "get_plant_info_loop rt env js sa")
    from Cons.prems a Inl rec have c: "caught e" and i: "i < 3" and r2: "r2 = Inr ()"
      by (auto split: if_splits)
    from Cons.IH [of sa] rec r2 a Inl c i show ?thesis by auto
  qed
qed

lemma poll_attempt_unparsable:
  assumes "is_connected a" and "http_result a = Inr response" and "status_code response = 200"
    and "current_reading response = Inr (PStr str)" and "rt_float rt str = None"
  shows "result_of (get_plant_info_attempt rt a i s)
           = Inl (Exn ValueError ''could not convert string to float'') \<and>
         power_reading (state_after (get_plant_info_attempt rt a i s)) = power_reading s"
  using assms by (simp add: get_plant_info_attempt_def Let_def read_power_def py_float_def)

lemma poll_attempt_missing:
  assumes "is_connected a" and "http_result a = Inr response" and "status_code response = 200"
    and "current_reading response = Inl e"
  shows "result_of (get_plant_info_attempt rt a i s) = Inl e \<and>
         power_reading (state_after (get_plant_info_attempt rt a i s)) = power_reading s"
  using assms by (simp add: get_plant_info_attempt_def Let_def read_power_def)

lemma poll_loop_uncaught:
  assumes "result_of (get_plant_info_attempt rt (env i) i s) = Inl e" and "\<not> caught e"
  shows "get_plant_info_loop rt env (i # rest) s = get_plant_info_attempt rt (env i) i s"
  using assms by (cases "get_plant_info_attempt rt (env i) i s") simp

lemma dict_update_keeps_data:
  assumes "dict_update reply [(''userId'', a), (''userLevel'', b)] = Inr data"
  shows "getitem_key data ''data'' = getitem_key reply ''data''"
  using assms by (cases reply) (auto simp: update_conv')

lemma login_data_plant:
  assumes "login_data response = Inr data"
  shows "first_plant_id data = response_plant_id response"
proof -
  from assms obtain decoded reply
    where d: "content_json response = Inr decoded" and b: "getitem_key decoded ''back'' = Inr reply"
      and u: "\<exists>a b. dict_update reply [(''userId'', a), (''userLevel'', b)] = Inr data"
    by (auto simp: login_data_def bind_exn_eq_Inr split: if_splits)
  from u have "getitem_key data ''data'' = getitem_key reply ''data''"
    by (auto dest: dict_update_keeps_data)
  with d b show ?thesis
    by (simp add: response_plant_id_def first_plant_id_def)
qed

lemma map_sum_id_Inr: "map_sum id f x = Inr y \<Longrightarrow> \<exists>v. x = Inr v \<and> y = f v"
  by (cases x) auto

lemma map_sum_id_Inl: "map_sum id f x = Inl e \<Longrightarrow> x = Inl e"
  by (cases x) auto

lemma login_attempt_plant_kept:
  "plant_id s \<noteq> PNone \<Longrightarrow> plant_id (state_after (login_attempt a u p i s)) = plant_id s"
  by (simp add: login_attempt_def Let_def split: sum.splits option.splits)

lemma login_attempt_caught_state:
  assumes "login_attempt a u p i s = (Inl e, s1, evs)" and "caught e"
  shows "s1 = s"
  using assms
  by (auto simp: login_attempt_def Let_def caught_def first_plant_id_def bind_exn_eq_Inl
      split: if_splits sum.splits option.splits
      dest!: map_sum_id_Inl map_sum_id_Inr
      dest: getitem_key_error [unfolded caught_def] getitem_0_error [unfolded caught_def])

lemma login_attempt_success_plant:
  assumes "login_attempt a u p i s = (Inr x, s1, evs)" and "plant_id s = PNone"
  shows "\<exists>response. http_result a = Inr response \<and>
           response_plant_id response = Inr (plant_id s1)"
  using assms
  by (auto simp: login_attempt_def Let_def login_data_plant
      split: if_splits sum.splits option.splits dest!: map_sum_id_Inr)

lemma login_loop_plant_kept:
  "plant_id s \<noteq> PNone \<Longrightarrow> plant_id (state_after (login_loop env u p js s)) = plant_id s"
proof (induction js arbitrary: s)
  case Nil
  show ?case by simp
next
  case (Cons i js)
  obtain r sa eva where a: "login_attempt (env i) u p i s = (r, sa, eva)"
    by (cases "login_attempt (env i) u p i s")
  with login_attempt_plant_kept [OF Cons.prems, of "env i" u p i]
  have sa: "plant_id sa = plant_id s" by simp
  with Cons.prems have "plant_id sa \<noteq> PNone" by simp
  from Cons.IH [OF this] sa show ?case
    by (cases r; cases "login_loop env u p js sa") (simp_all add: a)
qed

lemma login_loop_success_plant:
  assumes "result_of (login_loop env u p js s) = Inr ()" and "plant_id s = PNone"
  shows "(\<exists>k \<in> set js. \<exists>response. http_result (env k) = Inr response \<and>
            response_plant_id response
              = Inr (plant_id (state_after (login_loop env u p js s)))) \<or>
         (\<forall>j \<in> set js. j < 2)"
  using assms
proof (induction js arbitrary: s)
  case Nil
  show ?case by simp
next
  case (Cons i js)
  obtain r sa eva where a: "login_attempt (env i) u p i s = (r, sa, eva)"
    by (cases "login_attempt (env i) u p i s")
  show ?case
  proof (cases r)
    case (Inr x)
    with a login_attempt_success_plant [of "env i" u p i s x sa eva] Cons.prems(2)
    show ?thesis by auto
  next
    case (Inl e)
    obtain r2 s2 evs2 where rec: "login_loop env u p js sa = (r2, s2, evs2)"
      by (cases "login_loop env u p js sa")
    from Cons.prems a Inl rec have c: "caught e" and i: "i < 2" and r2: "r2 = Inr ()"
      by (auto split: if_splits)
    from a Inl c have "sa = s" by (auto dest: login_attempt_caught_state)
    with Cons.prems(2) have "plant_id sa = PNone" by simp
    from Cons.IH [of sa] rec r2 this a Inl c i show ?thesis by auto
  qed
qed

lemma poll_attempt_plant:
  "plant_id (state_after (get_plant_info_attempt rt a i s)) = plant_id s \<and>
   (HttpGet url hdrs \<in> set (events_of (get_plant_info_attempt rt a i s)) \<longrightarrow>
      url = plant_url rt (plant_id s))"
  by (simp add: get_plant_info_attempt_def Let_def split: sum.splits)

lemma retry_action_no_get: "HttpGet url hdrs \<notin> set (retry_action e)"
  by (simp add: retry_action_def)

lemma poll_loop_plant:
  "plant_id (state_after (get_plant_info_loop rt env js s)) = plant_id s \<and>
   (HttpGet url hdrs \<in> set (events_of (get_plant_info_loop rt env js s)) \<longrightarrow>
      url = plant_url rt (plant_id s))"
proof (induction js arbitrary: s)
  case Nil
  show ?case by simp
next
  case (Cons i js)
  obtain r sa eva where a: "get_plant_info_attempt rt (env i) i s = (r, sa, eva)"
    by (cases "get_plant_info_attempt rt (env i) i s")
  with poll_attempt_plant [of rt "env i" i s url hdrs]
  have sa: "plant_id sa = plant_id s"
    and eva: "HttpGet url hdrs \<in> set eva \<longrightarrow> url = plant_url rt (plant_id s)"
    by simp_all
  obtain r2 s2 evs2 where rec: "get_plant_info_loop rt env js sa = (r2, s2, evs2)"
    by (cases "get_plant_info_loop rt env js sa")
  with Cons.IH [of sa] sa
  have s2: "plant_id s2 = plant_id s"
    and evs2: "HttpGet url hdrs \<in> set evs2 \<longrightarrow> url = plant_url rt (plant_id s)"
    by simp_all
  show ?case
    using sa eva s2 evs2 retry_action_no_get [of url hdrs]
    by (cases r) (auto simp: a rec)
qed

lemma successful_poll_truncates:
  assumes "result_of (get_plant_info rt env s) = Inr ()"
  shows "\<exists>k \<in> {1, 2, 3}. \<exists>response raw r.
           is_connected (env k) \<and> http_result (env k) = Inr response \<and>
           status_code response = 200 \<and> current_reading response = Inr raw \<and>
           py_float rt raw = Inr (Finite r) \<and>
           power_reading (state_after (get_plant_info rt env s)) = Some (trunc r) \<and>
           \<bar>of_int (trunc r)\<bar> \<le> \<bar>r\<bar> \<and> \<bar>r - of_int (trunc r)\<bar> < 1"
proof -
  from assms have "result_of (get_plant_info_loop rt env [1, 2, 3] s) = Inr ()"
    unfolding get_plant_info_unfold .
  from poll_loop_success [OF this] obtain k response raw r
    where "k \<in> set [1, 2, 3::nat]" and "is_connected (env k)"
      and "http_result (env k) = Inr response" and "status_code response = 200"
      and "current_reading response = Inr raw" and "py_float rt raw = Inr (Finite r)"
      and "power_reading (state_after (get_plant_info_loop rt env [1, 2, 3] s)) = Some (trunc r)"
    by (auto simp del: get_plant_info_loop.simps)
  with trunc_towards_zero [of r] show ?thesis
    unfolding get_plant_info_unfold
    by (intro bexI [of _ k] exI [of _ response] exI [of _ raw] exI [of _ r])
      (simp_all del: get_plant_info_loop.simps)
qed

lemma trunc_sample_zero: "trunc 0 = 0"
  by (simp add: trunc_def)

lemma trunc_of_bool: "trunc (if b then 1 else 0) = (if b then 1 else 0)"
  by (simp add: trunc_def)

lemma poll_attempt_read_power:
  assumes "is_connected a" and "http_result a = Inr response" and "status_code response = 200"
  shows "result_of (get_plant_info_attempt rt a i s) = map_sum id (\<lambda>p. ()) (read_power rt response) \<and>
         (\<forall>p. read_power rt response = Inr p \<longrightarrow>
            power_reading (state_after (get_plant_info_attempt rt a i s)) = Some p)"
  using assms by (simp add: get_plant_info_attempt_def Let_def split: sum.splits)

lemma outer_except_unclassified:
  "cls_of e \<in> {KeyError, IndexError, TypeError, OverflowError} \<Longrightarrow>
   outer_except e m = m\<lparr>phase := Exited 1, trace := trace m @ [Exit 1]\<rparr>"
  by (auto simp: outer_except_def always_retry_after_any_exception_def)

section \<open>Exhausting the attempts\<close>

text \<open>
  Claim C1, as amended. When three passes of \<^verbatim>\<open>get_plant_info\<close> in a row end in an error of a
  caught class (\<^verbatim>\<open>RuntimeError\<close>, \<^verbatim>\<open>ValueError\<close>, \<^verbatim>\<open>OutOfRetries\<close> or the link being down), the
  function raises \<^verbatim>\<open>NotLoggedIn("Serial errors. Trying login again.")\<close>, and passes 1, 2 and 3 are
  the only ones made. The program has no separate serial-failure exception for polling.
\<close>

theorem get_plant_info_gives_up_after_three:
  assumes "\<forall>i \<in> {1, 2, 3}. \<forall>s. transport_failure (get_plant_info_attempt rt (env i) i s)"
  shows "result_of (get_plant_info rt env s)
           = Inl (Exn NotLoggedIn ''Serial errors. Trying login again.'') \<and>
         attempts_made (events_of (get_plant_info rt env s)) = [1, 2, 3]"
proof -
  from assms have "transport_failure (get_plant_info_attempt rt (env 1) 1 s)" by simp
  then obtain e1 s1 ev1
    where a1: "get_plant_info_attempt rt (env 1) 1 s = (Inl e1, s1, ev1)" and c1: "caught e1"
    by (rule transport_failureE)
  from assms have "transport_failure (get_plant_info_attempt rt (env 2) 2 s1)" by simp
  then obtain e2 s2 ev2
    where a2: "get_plant_info_attempt rt (env 2) 2 s1 = (Inl e2, s2, ev2)" and c2: "caught e2"
    by (rule transport_failureE)
  from assms have "transport_failure (get_plant_info_attempt rt (env 3) 3 s2)" by simp
  then obtain e3 s3 ev3
    where a3: "get_plant_info_attempt rt (env 3) 3 s2 = (Inl e3, s3, ev3)" and c3: "caught e3"
    by (rule transport_failureE)
  note m = attempts_made_poll_attempt [OF a1] attempts_made_poll_attempt [OF a2]
    attempts_made_poll_attempt [OF a3]
  have "get_plant_info rt env s =
          (Inl (Exn NotLoggedIn ''Serial errors. Trying login again.''), s3,
           ev1 @ retry_action e1 @ ev2 @ retry_action e2 @ ev3)"
    by (simp add: get_plant_info_unfold
        poll_loop_caught [of rt env 1 s e1 s1 ev1, OF a1 c1]
        poll_loop_caught [of rt env 2 s1 e2 s2 ev2, OF a2 c2]
        poll_loop_caught [of rt env 3 s2 e3 s3 ev3, OF a3 c3]
        del: get_plant_info_loop.simps One_nat_def)
  then show ?thesis by (simp add: m)
qed

theorem get_plant_info_gives_up_after_three_witness:
  "result_of (get_plant_info sample_runtime mixed_failures GrowattApi)
     = Inl (Exn NotLoggedIn ''Serial errors. Trying login again.'') \<and>
   attempts_made (events_of (get_plant_info sample_runtime mixed_failures GrowattApi)) = [1, 2, 3]"
  using get_plant_info_gives_up_after_three [of sample_runtime mixed_failures GrowattApi]
  by (simp add: transport_failure_def get_plant_info_attempt_def mixed_failures_def
      link_down_def request_raises_def request_answers_def bad_json_def caught_def
      read_power_def current_reading_def)

text \<open>
  The claim as first stated asks for the serial-failure exception; three time-outs in a row end
  in \<^verbatim>\<open>NotLoggedIn\<close> instead.
\<close>

theorem get_plant_info_serial_failure_counterexample:
  "raised_class (result_of (get_plant_info sample_runtime always_times_out GrowattApi))
     = Some NotLoggedIn \<and>
   raised_class (result_of (get_plant_info sample_runtime always_times_out GrowattApi))
     \<noteq> Some SerialLoginErrors"
  by (simp add: get_plant_info_unfold get_plant_info_attempt_def always_times_out_def
      request_raises_def caught_def raised_class_def)

text \<open>
  Claim C6. When both passes of \<^verbatim>\<open>login\<close> end in an error of a caught class, \<^verbatim>\<open>login\<close> raises
  \<^verbatim>\<open>SerialLoginErrors\<close> after pass 2 and makes no third pass; the main loop answers with
  \<^verbatim>\<open>wifi.reset()\<close> and goes back to logging in.
\<close>

theorem login_two_failures_then_reset:
  fixes rt env cr m
  defines "call \<equiv> login rt env (growatt_username cr) (growatt_password cr) (growatt_plant_id cr)
                     (api m)"
  assumes "phase m = LoggingIn"
    and "\<forall>i \<in> {1, 2}. \<forall>s. transport_failure
           (login_attempt (env i) (growatt_username cr)
              (hash_password (rt_md5 rt) (growatt_password cr)) i s)"
  shows "result_of call
           = Inl (Exn SerialLoginErrors ''Serial login errors. Let's try something else!'') \<and>
         attempts_made (events_of call) = [1, 2] \<and>
         main_step rt cr env m
           = m\<lparr>api := state_after call, phase := LoggingIn,
                trace := trace m @ events_of call @ [WifiReset]\<rparr>"
proof -
  let ?u = "growatt_username cr" and ?p = "hash_password (rt_md5 rt) (growatt_password cr)"
  let ?s0 = "if growatt_plant_id cr \<noteq> PNone then (api m)\<lparr>plant_id := growatt_plant_id cr\<rparr>
             else api m"
  from assms(3) have "transport_failure (login_attempt (env 1) ?u ?p 1 ?s0)" by simp
  then obtain e1 s1 ev1
    where a1: "login_attempt (env 1) ?u ?p 1 ?s0 = (Inl e1, s1, ev1)" and c1: "caught e1"
    by (rule transport_failureE)
  from assms(3) have "transport_failure (login_attempt (env 2) ?u ?p 2 s1)" by simp
  then obtain e2 s2 ev2
    where a2: "login_attempt (env 2) ?u ?p 2 s1 = (Inl e2, s2, ev2)" and c2: "caught e2"
    by (rule transport_failureE)
  note m = attempts_made_login_attempt [OF a1] attempts_made_login_attempt [OF a2]
  have run: "call =
          (Inl (Exn SerialLoginErrors ''Serial login errors. Let's try something else!''), s2,
           ev1 @ retry_action e1 @ ev2)"
    unfolding call_def
    by (simp add: login_unfold
        login_loop_caught [of env 1 ?u ?p ?s0 e1 s1 ev1, OF a1 c1]
        login_loop_caught [of env 2 ?u ?p s1 e2 s2 ev2, OF a2 c2]
        del: login_loop.simps One_nat_def)
  show ?thesis
    using run unfolding call_def by (simp add: m main_step_def assms(2) outer_except_def)
qed

theorem login_two_failures_then_reset_witness:
  "result_of (login sample_runtime mixed_failures ''user'' ''password'' PNone GrowattApi)
     = Inl (Exn SerialLoginErrors ''Serial login errors. Let's try something else!'') \<and>
   attempts_made (trace (main_step sample_runtime sample_credentials mixed_failures start))
     = [1, 2] \<and>
   escalations (trace (main_step sample_runtime sample_credentials mixed_failures start))
     = [Sleep 20, WifiReset] \<and>
   phase (main_step sample_runtime sample_credentials mixed_failures start) = LoggingIn"
  using login_two_failures_then_reset [of start mixed_failures sample_credentials sample_runtime]
  by (simp add: run_defs mixed_failures_def)

section \<open>Rejections by the service\<close>

text \<open>
  Claim C5. When the first pass of \<^verbatim>\<open>login\<close> receives a response whose \<^verbatim>\<open>success\<close> flag is false,
  \<^verbatim>\<open>login\<close> raises \<^verbatim>\<open>NotLoggedIn\<close> at once: one pass, no wait, no call into the Wi-Fi
  controller. The main loop then calls \<^verbatim>\<open>exit(1)\<close>, and nothing runs after that.
\<close>

theorem login_rejected_exits:
  fixes rt env cr m
  defines "call \<equiv> login rt env (growatt_username cr) (growatt_password cr) (growatt_plant_id cr)
                     (api m)"
  assumes "phase m = LoggingIn"
    and "is_connected (env 1)" and "http_result (env 1) = Inr response"
    and "content_json response = Inr decoded" and "getitem_key decoded ''back'' = Inr data"
    and "getitem_key data ''success'' = Inr flag" and "\<not> truthy flag"
  shows "result_of call = Inl (Exn NotLoggedIn []) \<and>
         attempts_made (events_of call) = [1] \<and>
         escalations (events_of call) = [] \<and>
         main_step rt cr env m
           = m\<lparr>api := state_after call, phase := Exited 1,
                trace := trace m @ events_of call @ [Exit 1]\<rparr> \<and>
         main_run rt cr envs (main_step rt cr env m) = main_step rt cr env m"
proof -
  let ?u = "growatt_username cr" and ?p = "hash_password (rt_md5 rt) (growatt_password cr)"
  let ?s0 = "if growatt_plant_id cr \<noteq> PNone then (api m)\<lparr>plant_id := growatt_plant_id cr\<rparr>
             else api m"
  let ?evs = "[LoginAttempt 1,
               HttpPost (get_url ''newTwoLoginAPI.do'') (headers ?s0)
                 [(''userName'', ?u), (''password'', ?p)]]"
  have a1: "login_attempt (env 1) ?u ?p 1 ?s0 = (Inl (Exn NotLoggedIn []), ?s0, ?evs)"
    by (rule login_attempt_rejected [OF assms(3-8)])
  have run: "call = (Inl (Exn NotLoggedIn []), ?s0, ?evs)"
    unfolding call_def login_unfold login_loop.simps a1 by (simp add: caught_def)
  have step: "main_step rt cr env m
                = m\<lparr>api := ?s0, phase := Exited 1, trace := trace m @ ?evs @ [Exit 1]\<rparr>"
    using run unfolding main_step_def call_def by (simp add: assms(2) outer_except_def)
  have stay: "main_run rt cr envs (main_step rt cr env m) = main_step rt cr env m"
    by (rule main_run_exited [of _ 1]) (simp add: step)
  show ?thesis
    using step stay unfolding run
    by (simp add: attempts_made_def map_filter_def escalations_def)
qed

theorem login_rejected_exits_witness:
  "result_of (login sample_runtime rejected_at_once ''user'' ''password'' PNone GrowattApi)
     = Inl (Exn NotLoggedIn []) \<and>
   attempts_made (trace (main_step sample_runtime sample_credentials rejected_at_once start))
     = [1] \<and>
   phase (main_step sample_runtime sample_credentials rejected_at_once start) = Exited 1 \<and>
   main_run sample_runtime sample_credentials [rejected_at_once, rejected_at_once]
       (main_step sample_runtime sample_credentials rejected_at_once start)
     = main_step sample_runtime sample_credentials rejected_at_once start"
  using login_rejected_exits [of start rejected_at_once login_rejected
      "PDict [(''back'', PDict [(''success'', PBool False)])]"
      "PDict [(''success'', PBool False)]" "PBool False"
      sample_runtime sample_credentials "[rejected_at_once, rejected_at_once]"]
  by (simp add: run_defs rejected_at_once_def)

text \<open>
  Claim C7. When a pass of \<^verbatim>\<open>get_plant_info\<close> (the first, or one reached after caught errors)
  receives a status code other than 200, the function raises
  \<^verbatim>\<open>NotLoggedIn("Apparently not logged in")\<close> in that pass and makes no further pass; the main loop
  leaves the polling loop and logs in again.
\<close>

theorem poll_bad_status_relogin:
  fixes rt env cr m
  defines "call \<equiv> get_plant_info rt env (api m)"
  assumes "phase m = Polling" and "k \<in> {1, 2, 3}"
    and "\<forall>j \<in> {1..<k}. \<forall>s. transport_failure (get_plant_info_attempt rt (env j) j s)"
    and "is_connected (env k)" and "http_result (env k) = Inr response"
    and "status_code response \<noteq> 200"
  shows "result_of call = Inl (Exn NotLoggedIn ''Apparently not logged in'') \<and>
         attempts_made (events_of call) = [1..<Suc k] \<and>
         main_step rt cr env m
           = m\<lparr>api := state_after call, phase := LoggingIn,
                trace := trace m @ [ShowPlaceholder] @ events_of call\<rparr>"
proof -
  obtain rest where split: "[1, 2, 3] = [1..<k] @ k # rest" and upto: "[1..<Suc k] = [1..<k] @ [k]"
  proof -
    from assms(3) consider "k = 1" | "k = 2" | "k = 3" by auto
    then show ?thesis
    proof cases
      case 1 then show ?thesis using that [of "[2, 3]"] by simp
    next
      case 2 then show ?thesis using that [of "[3]"] by (simp add: upt_rec)
    next
      case 3 then show ?thesis using that [of "[]"] by (simp add: upt_rec)
    qed
  qed
  have pre: "\<forall>j \<in> set [1..<k]. j < 3 \<and>
               (\<forall>s. transport_failure (get_plant_info_attempt rt (env j) j s))"
    using assms(3,4) by auto
  obtain r s' evs where run: "call = (r, s', evs)"
    by (cases call)
  from poll_loop_bad_status [OF pre assms(5-7), of rest "api m"]
  have r: "r = Inl (Exn NotLoggedIn ''Apparently not logged in'')"
    and n: "attempts_made evs = [1..<Suc k]"
    using run unfolding call_def get_plant_info_unfold split upto by simp_all
  show ?thesis
    using run unfolding call_def by (simp add: r n main_step_def assms(2) del: upt_Suc)
qed

theorem poll_bad_status_relogin_witness:
  "result_of (get_plant_info sample_runtime expired_on_second GrowattApi)
     = Inl (Exn NotLoggedIn ''Apparently not logged in'') \<and>
   attempts_made (events_of (get_plant_info sample_runtime expired_on_second GrowattApi)) = [1, 2] \<and>
   phase (main_step sample_runtime sample_credentials expired_on_second (start\<lparr>phase := Polling\<rparr>))
     = LoggingIn"
  using poll_bad_status_relogin [of "start\<lparr>phase := Polling\<rparr>" 2 sample_runtime
      expired_on_second "device_list 302 []" sample_credentials]
  by (simp add: run_defs expired_on_second_def)

section \<open>What happens between two passes\<close>

text \<open>
  Claim C2 asks that a pass which finds the link down calls \<^verbatim>\<open>wifi.connect()\<close> and retries
  without the 20 second wait. The program raises \<^verbatim>\<open>WiFiNotConnected("Wifi not connected")\<close> and
  then compares \<^verbatim>\<open>str(error)\<close> with \<^verbatim>\<open>"WiFi not connected"\<close>: the two texts differ in one
  letter, so the branch that calls \<^verbatim>\<open>wifi.connect()\<close> is not taken. What the program does
  instead, in \<^verbatim>\<open>login\<close> and in \<^verbatim>\<open>get_plant_info\<close> alike, while attempts remain: it sleeps 20
  seconds and goes on to the next pass.
\<close>

theorem link_down_waits_without_connect:
  fixes rt env u p s rest
  defines "L \<equiv> login_loop env u p rest s" and "P \<equiv> get_plant_info_loop rt env rest s"
  assumes "\<not> is_connected (env i)"
  shows "(i < 2 \<longrightarrow>
            login_loop env u p (i # rest) s
              = (result_of L, state_after L, [LoginAttempt i, Sleep 20] @ events_of L)) \<and>
         (i < 3 \<longrightarrow>
            get_plant_info_loop rt env (i # rest) s
              = (result_of P, state_after P, [PollAttempt i, Sleep 20] @ events_of P))"
  unfolding L_def P_def
  by (simp add: login_attempt_link_down [OF assms(3)] poll_attempt_link_down [OF assms(3)]
      caught_def retry_action_def split: prod.splits)

theorem link_down_waits_without_connect_witness:
  "result_of (login sample_runtime down_then_accepted ''user'' ''password'' PNone GrowattApi)
     = Inr () \<and>
   attempts_made
     (events_of (login sample_runtime down_then_accepted ''user'' ''password'' PNone GrowattApi))
     = [1, 2] \<and>
   escalations
     (events_of (login sample_runtime down_then_accepted ''user'' ''password'' PNone GrowattApi))
     = [Sleep 20]"
  using link_down_waits_without_connect [where env = down_then_accepted and i = 1
      and u = "''user''" and p = "hash_password (rt_md5 sample_runtime) ''password''"
      and rest = "[2]" and s = GrowattApi and rt = sample_runtime]
  by (simp add: run_defs down_then_accepted_def)

text \<open>
  Claim C3, as amended. A caught error that is not the link-down error, raised in a pass of
  \<^verbatim>\<open>login\<close> or \<^verbatim>\<open>get_plant_info\<close> that is not the last, is followed by the remaining passes of
  the same loop. Between the two passes the program calls \<^verbatim>\<open>wifi.reset()\<close> when the text of the
  error is \<^verbatim>\<open>"Error response to command"\<close>, and \<^verbatim>\<open>time.sleep(20)\<close> and nothing else for any
  other text except \<^verbatim>\<open>"WiFi not connected"\<close>.
\<close>

theorem transport_error_pause_then_retry:
  fixes rt env u p s1 rest e
  defines "L \<equiv> login_loop env u p rest s1" and "P \<equiv> get_plant_info_loop rt env rest s1"
    and "pause \<equiv> (if message e = ''Error response to command'' then [WifiReset] else [Sleep 20])"
  assumes "caught e" and "cls_of e \<noteq> WiFiNotConnected" and "message e \<noteq> ''WiFi not connected''"
  shows "(login_attempt (env i) u p i s = (Inl e, s1, evs) \<and> i < 2 \<longrightarrow>
            login_loop env u p (i # rest) s
              = (result_of L, state_after L, evs @ pause @ events_of L)) \<and>
         (get_plant_info_attempt rt (env i) i s = (Inl e, s1, evs) \<and> i < 3 \<longrightarrow>
            get_plant_info_loop rt env (i # rest) s
              = (result_of P, state_after P, evs @ pause @ events_of P))"
  unfolding L_def P_def pause_def using assms(4-6)
  by (simp add: retry_action_def split: prod.splits)

theorem transport_error_pause_then_retry_witness:
  "result_of (login sample_runtime timeout_then_accepted ''user'' ''password'' PNone GrowattApi)
     = Inr () \<and>
   attempts_made
     (events_of (login sample_runtime timeout_then_accepted ''user'' ''password'' PNone GrowattApi))
     = [1, 2] \<and>
   escalations
     (events_of (login sample_runtime timeout_then_accepted ''user'' ''password'' PNone GrowattApi))
     = [Sleep 20]"
  using transport_error_pause_then_retry
      [where e = "Exn RuntimeError ''Timed out waiting for SPI char''"
        and env = timeout_then_accepted and i = 1 and u = "''user''"
        and p = "hash_password (rt_md5 sample_runtime) ''password''"
        and s = GrowattApi and ?s1.0 = GrowattApi
        and evs = "[LoginAttempt 1, HttpPost (get_url ''newTwoLoginAPI.do'') (headers GrowattApi)
          [(''userName'', ''user''),
           (''password'', hash_password (rt_md5 sample_runtime) ''password'')]]"
        and rest = "[2]" and rt = sample_runtime]
  by (simp add: run_defs timeout_then_accepted_def)

text \<open>
  The claim as first stated covers every transport error. A \<^verbatim>\<open>RuntimeError\<close> with the text
  \<^verbatim>\<open>"Error response to command"\<close> is answered by \<^verbatim>\<open>wifi.reset()\<close> and no wait.
\<close>

theorem error_response_resets_counterexample:
  "result_of
     (login sample_runtime error_response_then_accepted ''user'' ''password'' PNone GrowattApi)
     = Inr () \<and>
   escalations (events_of
     (login sample_runtime error_response_then_accepted ''user'' ''password'' PNone GrowattApi))
     = [WifiReset]"
  by (simp add: run_defs error_response_then_accepted_def)

section \<open>The stored reading\<close>

text \<open>
  Claim C10. A pass of \<^verbatim>\<open>get_plant_info\<close> that ends in an exception leaves \<^verbatim>\<open>self.power\<close> as it
  was; a pass changes it only when the link was up, the status was 200 and
  \<^verbatim>\<open>int(float(...))\<close> of the extracted field succeeded. So a call that ends in an exception keeps
  the last reading, and the main loop sends nothing to the display in that step.
\<close>

theorem failed_poll_keeps_power:
  fixes rt a i s env cr m
  defines "attempt \<equiv> get_plant_info_attempt rt a i s" and "call \<equiv> get_plant_info rt env (api m)"
  shows "(result_of attempt \<noteq> Inr () \<longrightarrow> power_reading (state_after attempt) = power_reading s) \<and>
         (power_reading (state_after attempt) \<noteq> power_reading s \<longrightarrow>
            is_connected a \<and>
            (\<exists>response p. http_result a = Inr response \<and> status_code response = 200 \<and>
               read_power rt response = Inr p \<and> power_reading (state_after attempt) = Some p)) \<and>
         (result_of call \<noteq> Inr () \<longrightarrow> power_reading (state_after call) = power_reading (api m)) \<and>
         (phase m = Polling \<and> result_of call \<noteq> Inr () \<longrightarrow>
            power_reading (api (main_step rt cr env m)) = power_reading (api m) \<and>
            filter is_display_update (trace (main_step rt cr env m))
              = filter is_display_update (trace m))"
proof -
  have one: "result_of attempt \<noteq> Inr () \<longrightarrow> power_reading (state_after attempt) = power_reading s"
    using poll_attempt_power_changed [of rt a i s] unfolding attempt_def by blast
  have two: "power_reading (state_after attempt) \<noteq> power_reading s \<longrightarrow>
            is_connected a \<and>
            (\<exists>response p. http_result a = Inr response \<and> status_code response = 200 \<and>
               read_power rt response = Inr p \<and> power_reading (state_after attempt) = Some p)"
    using poll_attempt_power_changed [of rt a i s] unfolding attempt_def by blast
  obtain r s1 evs where run: "call = (r, s1, evs)" by (cases call)
  have nodisp: "filter is_display_update evs = []"
    using poll_loop_no_display [of rt env "[1, 2, 3]" "api m"] run
    unfolding call_def get_plant_info_unfold by simp
  have three: "r \<noteq> Inr () \<Longrightarrow> power_reading s1 = power_reading (api m)"
  proof -
    assume "r \<noteq> Inr ()"
    then obtain e where "r = Inl e" by (cases r) auto
    with run have "get_plant_info_loop rt env [1, 2, 3] (api m) = (Inl e, s1, evs)"
      unfolding call_def get_plant_info_unfold by (simp del: get_plant_info_loop.simps)
    then show ?thesis by (rule poll_loop_failed_power)
  qed
  have four: "phase m = Polling \<Longrightarrow> r \<noteq> Inr () \<Longrightarrow>
      power_reading (api (main_step rt cr env m)) = power_reading (api m) \<and>
      filter is_display_update (trace (main_step rt cr env m))
        = filter is_display_update (trace m)"
  proof -
    assume ph: "phase m = Polling" and "r \<noteq> Inr ()"
    then obtain e where e: "r = Inl e" by (cases r) auto
    with three have "power_reading s1 = power_reading (api m)" by simp
    with ph e run nodisp show ?thesis
      unfolding call_def by (simp add: main_step_def outer_except_def Let_def)
  qed
  from one two three four show ?thesis unfolding run by simp
qed

theorem failed_poll_keeps_power_witness:
  "result_of (get_plant_info sample_runtime mixed_failures (GrowattApi\<lparr>power_reading := Some 1499\<rparr>))
     = Inl (Exn NotLoggedIn ''Serial errors. Trying login again.'') \<and>
   power_reading (api (main_step sample_runtime sample_credentials mixed_failures
      \<lparr>api = GrowattApi\<lparr>power_reading := Some 1499\<rparr>, phase = Polling, trace = [UpdateDisplay (Some 1499)]\<rparr>))
     = Some 1499 \<and>
   filter is_display_update (trace (main_step sample_runtime sample_credentials mixed_failures
      \<lparr>api = GrowattApi\<lparr>power_reading := Some 1499\<rparr>, phase = Polling, trace = [UpdateDisplay (Some 1499)]\<rparr>))
     = [UpdateDisplay (Some 1499)]"
  using failed_poll_keeps_power [where rt = sample_runtime and a = link_down and i = 1
      and s = "GrowattApi\<lparr>power_reading := Some 1499\<rparr>" and env = mixed_failures
      and cr = sample_credentials
      and m = "\<lparr>api = GrowattApi\<lparr>power_reading := Some 1499\<rparr>, phase = Polling,
                  trace = [UpdateDisplay (Some 1499)]\<rparr>"]
  by (simp add: run_defs mixed_failures_def)

text \<open>
  Claim C8 asks two things of \<^verbatim>\<open>get_plant_info\<close>. The first holds: after a call that returns,
  the stored reading is \<^verbatim>\<open>int(float(raw))\<close>, the float with its fraction dropped towards zero
  (\<open>successful_poll_truncates\<close> above). The second is that any malformed or missing power field
  raises an error the retry loop catches and is never turned into a zero; the comment above
  \<^verbatim>\<open>self.power = int(float(current_reading))\<close> says as much, garbage data is to throw an
  exception that the \<^verbatim>\<open>except\<close> clause below handles. That clause names \<^verbatim>\<open>RuntimeError\<close>,
  \<^verbatim>\<open>ValueError\<close>, \<^verbatim>\<open>OutOfRetries\<close> and \<^verbatim>\<open>WiFiNotConnected\<close> only. What the program does, in a pass
  that is answered with status 200 and a body that decodes: when the device list, its first
  entry or the power field is missing, the pass raises an exception the loop does not catch;
  when the power field is \<^verbatim>\<open>None\<close>, a list or a dictionary, it raises \<^verbatim>\<open>TypeError\<close>; when
  \<^verbatim>\<open>float\<close> makes an infinity of it, it raises \<^verbatim>\<open>OverflowError\<close>. In each case no later pass is
  made, and the main loop, given such an exception by \<^verbatim>\<open>get_plant_info\<close>, calls \<^verbatim>\<open>exit(1)\<close>.
  A power field \<^verbatim>\<open>False\<close> or \<^verbatim>\<open>True\<close> raises nothing and is stored as 0 or 1.
\<close>

theorem garbage_power_field_not_retried:
  fixes rt env i s rest cr m
  defines "attempt \<equiv> get_plant_info_attempt rt (env i) i s"
    and "call \<equiv> get_plant_info rt env (api m)"
  assumes "is_connected (env i)" and "http_result (env i) = Inr response"
    and "status_code response = 200" and "content_json response = Inr data"
  shows "(current_reading response = Inl e \<longrightarrow>
            result_of attempt = Inl e \<and> \<not> caught e \<and>
            get_plant_info_loop rt env (i # rest) s = attempt) \<and>
         (current_reading response = Inr raw \<and>
          (raw = PNone \<or> raw = PList xs \<or> raw = PDict kvs) \<longrightarrow>
            result_of attempt
              = Inl (Exn TypeError ''float() argument must be a string or a number'') \<and>
            get_plant_info_loop rt env (i # rest) s = attempt) \<and>
         (current_reading response = Inr raw \<and>
          (py_float rt raw = Inr PosInf \<or> py_float rt raw = Inr NegInf) \<longrightarrow>
            result_of attempt
              = Inl (Exn OverflowError ''cannot convert float infinity to integer'') \<and>
            get_plant_info_loop rt env (i # rest) s = attempt) \<and>
         (current_reading response = Inr (PBool b) \<longrightarrow>
            result_of attempt = Inr () \<and>
            power_reading (state_after attempt) = Some (if b then 1 else 0)) \<and>
         (phase m = Polling \<and> result_of call = Inl e' \<and>
          cls_of e' \<in> {KeyError, IndexError, TypeError, OverflowError} \<longrightarrow>
            main_step rt cr env m
              = m\<lparr>api := state_after call, phase := Exited 1,
                   trace := trace m @ [ShowPlaceholder] @ events_of call @ [Exit 1]\<rparr>)"
proof -
  note rp = poll_attempt_read_power [OF assms(3-5), of rt i s, folded attempt_def]
  have stop: "\<And>x. result_of attempt = Inl x \<Longrightarrow> \<not> caught x \<Longrightarrow>
      get_plant_info_loop rt env (i # rest) s = attempt"
    unfolding attempt_def by (rule poll_loop_uncaught)
  have one: "current_reading response = Inl e \<Longrightarrow>
      result_of attempt = Inl e \<and> \<not> caught e \<and>
      get_plant_info_loop rt env (i # rest) s = attempt"
  proof -
    assume h: "current_reading response = Inl e"
    with assms(6) have nc: "\<not> caught e" by (rule current_reading_error)
    from h rp have "result_of attempt = Inl e" by (simp add: read_power_def)
    with nc stop show ?thesis by simp
  qed
  have two: "current_reading response = Inr raw \<Longrightarrow>
      raw = PNone \<or> raw = PList xs \<or> raw = PDict kvs \<Longrightarrow>
      result_of attempt = Inl (Exn TypeError ''float() argument must be a string or a number'') \<and>
      get_plant_info_loop rt env (i # rest) s = attempt"
  proof -
    assume h: "current_reading response = Inr raw" "raw = PNone \<or> raw = PList xs \<or> raw = PDict kvs"
    then have "read_power rt response
        = Inl (Exn TypeError ''float() argument must be a string or a number'')"
      by (auto simp: read_power_def py_float_def)
    with rp have r: "result_of attempt
        = Inl (Exn TypeError ''float() argument must be a string or a number'')"
      by simp
    from stop [OF r] r show ?thesis by (simp add: caught_def)
  qed
  have three: "current_reading response = Inr raw \<Longrightarrow>
      py_float rt raw = Inr PosInf \<or> py_float rt raw = Inr NegInf \<Longrightarrow>
      result_of attempt = Inl (Exn OverflowError ''cannot convert float infinity to integer'') \<and>
      get_plant_info_loop rt env (i # rest) s = attempt"
  proof -
    assume h: "current_reading response = Inr raw"
      "py_float rt raw = Inr PosInf \<or> py_float rt raw = Inr NegInf"
    then have "read_power rt response
        = Inl (Exn OverflowError ''cannot convert float infinity to integer'')"
      by (auto simp: read_power_def py_int_def)
    with rp have r: "result_of attempt
        = Inl (Exn OverflowError ''cannot convert float infinity to integer'')"
      by simp
    from stop [OF r] r show ?thesis by (simp add: caught_def)
  qed
  have four: "current_reading response = Inr (PBool b) \<Longrightarrow>
      result_of attempt = Inr () \<and>
      power_reading (state_after attempt) = Some (if b then 1 else 0)"
  proof -
    assume "current_reading response = Inr (PBool b)"
    then have "read_power rt response = Inr (if b then 1 else 0)"
      using trunc_of_bool [of b] by (simp add: read_power_def py_float_def py_int_def)
    with rp show ?thesis by simp
  qed
  have five: "phase m = Polling \<Longrightarrow> result_of call = Inl e' \<Longrightarrow>
      cls_of e' \<in> {KeyError, IndexError, TypeError, OverflowError} \<Longrightarrow>
      main_step rt cr env m
        = m\<lparr>api := state_after call, phase := Exited 1,
             trace := trace m @ [ShowPlaceholder] @ events_of call @ [Exit 1]\<rparr>"
  proof -
    assume ph: "phase m = Polling" and r: "result_of call = Inl e'"
      and c: "cls_of e' \<in> {KeyError, IndexError, TypeError, OverflowError}"
    obtain s1 evs where run: "call = (Inl e', s1, evs)" using r by (cases call) auto
    from c have "cls_of e' \<noteq> NotLoggedIn" by auto
    with ph run outer_except_unclassified [OF c] show ?thesis
      unfolding call_def by (simp add: main_step_def Let_def)
  qed
  from one two three four five show ?thesis by blast
qed

theorem garbage_power_field_not_retried_witness:
  "result_of (get_plant_info sample_runtime (reads_power PNone) GrowattApi)
     = Inl (Exn TypeError ''float() argument must be a string or a number'') \<and>
   \<not> caught (Exn TypeError ''float() argument must be a string or a number'') \<and>
   attempts_made (events_of (get_plant_info sample_runtime (reads_power PNone) GrowattApi))
     = [1] \<and>
   phase (main_step sample_runtime sample_credentials (reads_power PNone)
            (start\<lparr>phase := Polling\<rparr>)) = Exited 1 \<and>
   result_of (get_plant_info sample_runtime (reads_power (PBool False)) GrowattApi) = Inr () \<and>
   power_reading (state_after
      (get_plant_info sample_runtime (reads_power (PBool False)) GrowattApi)) = Some 0 \<and>
   result_of (get_plant_info sample_runtime no_power_field GrowattApi)
     = Inl (Exn KeyError ''power'') \<and>
   phase (main_step sample_runtime sample_credentials no_power_field
            (start\<lparr>phase := Polling\<rparr>)) = Exited 1 \<and>
   result_of (get_plant_info sample_runtime (reads_power (PStr ''inf'')) GrowattApi)
     = Inl (Exn OverflowError ''cannot convert float infinity to integer'')"
  using garbage_power_field_not_retried [where rt = sample_runtime
      and env = "reads_power PNone" and i = 1 and s = GrowattApi
      and response = "device_list 200 [(''power'', PNone)]"
      and data = "PDict [(''deviceList'', PList [PDict [(''power'', PNone)]])]"
      and raw = PNone and xs = "[]" and kvs = "[]" and rest = "[2, 3]"
      and cr = sample_credentials and m = "start\<lparr>phase := Polling\<rparr>",
      THEN conjunct2, THEN conjunct1]
  by (simp add: run_defs reads_power_def no_power_field_def trunc_sample_zero)

section \<open>The plant of the session\<close>

text \<open>
  Claim C9, as amended. A plant id given to \<^verbatim>\<open>login\<close> is the plant id of the session from
  then on. When none is given and the session has none yet, a \<^verbatim>\<open>login\<close> that returns has set it
  to \<^verbatim>\<open>back.data[0].plantId\<close> of the response it accepted; when the session already has one, from
  an earlier login, \<^verbatim>\<open>login\<close> keeps it whatever the response lists. \<^verbatim>\<open>get_plant_info\<close> does not
  change the plant id, and every GET request it sends has the address
  \<^verbatim>\<open>...newTwoPlantAPI.do?op=getAllDeviceList&plantId=<id>&pageNum=1&pageSize=1\<close> with
  \<^verbatim>\<open>str()\<close> of that plant id.
\<close>

theorem plant_id_resolution:
  fixes rt env u pw plant s env' s'
  defines "call \<equiv> login rt env u pw plant s" and "poll \<equiv> get_plant_info rt env' s'"
  shows "(plant \<noteq> PNone \<longrightarrow> plant_id (state_after call) = plant) \<and>
         (plant = PNone \<and> plant_id s \<noteq> PNone \<longrightarrow> plant_id (state_after call) = plant_id s) \<and>
         (plant = PNone \<and> plant_id s = PNone \<and> result_of call = Inr () \<longrightarrow>
            (\<exists>k \<in> {1, 2}. \<exists>response. http_result (env k) = Inr response \<and>
               response_plant_id response = Inr (plant_id (state_after call)))) \<and>
         plant_id (state_after poll) = plant_id s' \<and>
         (\<forall>url hdrs. HttpGet url hdrs \<in> set (events_of poll) \<longrightarrow>
            url = server_url @ ''newTwoPlantAPI.do'' @ ''?op=getAllDeviceList&plantId=''
                    @ py_str rt (plant_id s') @ ''&pageNum=1&pageSize=1'')"
proof -
  let ?p = "hash_password (rt_md5 rt) pw"
  have one: "plant \<noteq> PNone \<Longrightarrow> plant_id (state_after call) = plant"
    unfolding call_def login_unfold
    using login_loop_plant_kept [of "s\<lparr>plant_id := plant\<rparr>" env u ?p "[1, 2]"]
    by (simp del: login_loop.simps)
  have two: "plant = PNone \<Longrightarrow> plant_id s \<noteq> PNone \<Longrightarrow> plant_id (state_after call) = plant_id s"
    unfolding call_def login_unfold
    using login_loop_plant_kept [of s env u ?p "[1, 2]"]
    by (simp del: login_loop.simps)
  have three: "plant = PNone \<Longrightarrow> plant_id s = PNone \<Longrightarrow> result_of call = Inr () \<Longrightarrow>
      (\<exists>k \<in> {1, 2}. \<exists>response. http_result (env k) = Inr response \<and>
         response_plant_id response = Inr (plant_id (state_after call)))"
  proof -
    assume h: "plant = PNone" "plant_id s = PNone" "result_of call = Inr ()"
    then have "result_of (login_loop env u ?p [1, 2] s) = Inr ()"
      unfolding call_def login_unfold by (simp del: login_loop.simps)
    from login_loop_success_plant [OF this h(2)] h(1) show ?thesis
      unfolding call_def login_unfold by (simp del: login_loop.simps)
  qed
  have four: "plant_id (state_after poll) = plant_id s'"
    unfolding poll_def get_plant_info_unfold using poll_loop_plant [of rt env' "[1, 2, 3]" s']
    by (simp del: get_plant_info_loop.simps)
  have five: "\<And>url hdrs. HttpGet url hdrs \<in> set (events_of poll) \<Longrightarrow>
            url = server_url @ ''newTwoPlantAPI.do'' @ ''?op=getAllDeviceList&plantId=''
                    @ py_str rt (plant_id s') @ ''&pageNum=1&pageSize=1''"
  proof -
    fix url hdrs
    assume "HttpGet url hdrs \<in> set (events_of poll)"
    with poll_loop_plant [of rt env' "[1, 2, 3]" s' url hdrs]
    have "url = plant_url rt (plant_id s')"
      unfolding poll_def get_plant_info_unfold by (simp del: get_plant_info_loop.simps)
    then show "url = server_url @ ''newTwoPlantAPI.do'' @ ''?op=getAllDeviceList&plantId=''
                    @ py_str rt (plant_id s') @ ''&pageNum=1&pageSize=1''"
      by (simp add: plant_url_def get_url_def)
  qed
  from one two three four five show ?thesis by blast
qed

theorem plant_id_resolution_witness:
  "plant_id (state_after
      (login sample_runtime (accepted_with ''PLANT123'') ''user'' ''password'' PNone GrowattApi))
     = PStr ''PLANT123'' \<and>
   requested_urls (trace (main_run sample_runtime sample_credentials
      [accepted_with ''PLANT123'', reads_power (PStr ''1499.9'')] start))
     = [''https://server-api.growatt.com/newTwoPlantAPI.do?op=getAllDeviceList&plantId=PLANT123&pageNum=1&pageSize=1''] \<and>
   plant_id (state_after
      (login sample_runtime (accepted_with ''PLANT123'') ''user'' ''password'' (PStr ''MINE'')
         GrowattApi))
     = PStr ''MINE''"
  using plant_id_resolution [where rt = sample_runtime and env = "accepted_with ''PLANT123''"
      and u = "''user''" and pw = "''password''" and plant = PNone and s = GrowattApi
      and env' = "reads_power (PStr ''1499.9'')" and s' = GrowattApi, THEN conjunct1]
  by (simp add: run_defs accepted_with_def reads_power_def requested_urls_def
      trunc_sample_positive)

text \<open>
  The claim as first stated has every successful login without a configured plant take the
  first entry of the response. After the session expired, the second login is answered with
  a plant list that starts with another plant, and the session keeps the plant of the first.
\<close>

theorem relogin_keeps_plant_counterexample:
  "response_plant_id (login_accepted ''NEWEST'') = Inr (PStr ''NEWEST'') \<and>
   phase (main_run sample_runtime sample_credentials
      [accepted_with ''FIRST'', session_expired, accepted_with ''NEWEST''] start) = Polling \<and>
   plant_id (api (main_run sample_runtime sample_credentials
      [accepted_with ''FIRST'', session_expired, accepted_with ''NEWEST''] start)) = PStr ''FIRST''"
  by (simp add: run_defs accepted_with_def session_expired_def response_plant_id_def)


end
